theory Spec2Isabelle
  imports Main "HOL-Library.Word"
begin

unbundle bit_operations_syntax

section \<open>Data model of the rule engine (pkg/engine/rule.go)\<close>

text \<open>
  Go strings are byte sequences; they are modelled as \<open>string\<close> (a list of 8-bit
  characters), so \<open>length\<close> is Go's \<open>len\<close>.
\<close>

text \<open>\<open>MatchData\<close>: one satisfied operator match, \<open>(collection, key, value)\<close>.
  The empty \<open>MatchData\<close> of the source (\<open>&MatchData{}\<close>) has three empty strings.\<close>

record MatchData =
  Collection :: string
  Key :: string
  Value :: string

text \<open>\<open>RuleTransformation\<close> (rule.go, lines 58-61): the name of a transformation and the
  function itself, which the engine calls through reflection with one string and reads one
  string back.\<close>

record RuleTransformation =
  Function :: string
  TfFunc :: "string \<Rightarrow> string"

subsection \<open>Go slices of strings\<close>

text \<open>
  \<open>RuleVariable.Exceptions\<close> is a Go slice: a header \<open>(array, len, cap)\<close> that refers to
  a backing array shared by every copy of the header. \<open>Evaluate\<close> builds its effective
  exception list with \<open>make\<close>, \<open>copy\<close> and \<open>append\<close> (lines 136-144); whether that can
  write into the array of the rule is a question of aliasing, so backing arrays live in an
  explicit store. \<open>arrays h a\<close> is the content of the array at address \<open>a\<close> (its length is
  the capacity it was allocated with) and \<open>next_array h\<close> is the first address that has
  not been allocated.
\<close>

record slice =
  Array :: nat
  Len :: nat
  Cap :: nat

record heap =
  arrays :: "nat \<Rightarrow> string list"
  next_array :: nat

text \<open>The elements a slice shows: the first \<open>Len\<close> cells of its backing array.\<close>

definition slice_elems :: "heap \<Rightarrow> slice \<Rightarrow> string list" where
  "slice_elems h s = take (Len s) (arrays h (Array s))"

text \<open>\<open>make([]string, n)\<close>: a new array of \<open>n\<close> empty strings, and a slice over all of it.\<close>

definition go_make :: "nat \<Rightarrow> heap \<Rightarrow> slice \<times> heap" where
  "go_make n h =
     (\<lparr>Array = next_array h, Len = n, Cap = n\<rparr>,
      h\<lparr>arrays := (arrays h)(next_array h := replicate n []), next_array := Suc (next_array h)\<rparr>)"

text \<open>\<open>copy(dst, src)\<close>: overwrites the first \<open>min (len dst) (len src)\<close> cells of the array
  of \<open>dst\<close> with those of \<open>src\<close>.\<close>

definition go_copy :: "slice \<Rightarrow> slice \<Rightarrow> heap \<Rightarrow> heap" where
  "go_copy dst src h =
     (let n = min (Len dst) (Len src)
      in h\<lparr>arrays := (arrays h)(Array dst := take n (arrays h (Array src)) @ drop n (arrays h (Array dst)))\<rparr>)"

text \<open>
  \<open>append(s, x)\<close>: when the slice has spare capacity the element is written in place, into
  the array the slice shares; otherwise the elements move to a new, larger array. The
  capacity of the new array is chosen by the Go runtime (doubling, for short slices); no
  result below depends on the choice.
\<close>

definition growslice_cap :: "nat \<Rightarrow> nat" where
  "growslice_cap oldcap = (if oldcap = 0 then 1 else 2 * oldcap)"

definition go_append :: "slice \<Rightarrow> string \<Rightarrow> heap \<Rightarrow> slice \<times> heap" where
  "go_append s x h =
     (if Len s < Cap s then
        (s\<lparr>Len := Suc (Len s)\<rparr>,
         h\<lparr>arrays := (arrays h)(Array s := (arrays h (Array s))[Len s := x])\<rparr>)
      else
        (\<lparr>Array = next_array h, Len = Suc (Len s), Cap = growslice_cap (Cap s)\<rparr>,
         h\<lparr>arrays := (arrays h)(next_array h :=
                slice_elems h s @ [x] @ replicate (growslice_cap (Cap s) - Suc (Len s)) []),
           next_array := Suc (next_array h)\<rparr>))"

text \<open>
  A slice is valid in a store when its array is allocated, has the length of the slice's
  capacity, and holds at least \<open>Len\<close> cells. \<open>frame n h h'\<close> says that \<open>h'\<close> comes from \<open>h\<close>
  by allocation and by writes to arrays at addresses from \<open>n\<close> on: every array below
  \<open>n\<close> has the content it had.
\<close>

definition valid_slice :: "heap \<Rightarrow> slice \<Rightarrow> bool" where
  "valid_slice h s \<longleftrightarrow>
     Len s \<le> Cap s \<and> Cap s = length (arrays h (Array s)) \<and> Array s < next_array h"

definition frame :: "nat \<Rightarrow> heap \<Rightarrow> heap \<Rightarrow> bool" where
  "frame n h h' \<longleftrightarrow> next_array h \<le> next_array h' \<and> (\<forall>a<n. arrays h' a = arrays h a)"

subsection \<open>Rules\<close>

text \<open>\<open>RuleVariable\<close> (lines 63-68). The fields \<open>Collection\<close> and \<open>Key\<close> are named
  \<open>VarCollection\<close> and \<open>VarKey\<close> here, apart from those of \<open>MatchData\<close>.\<close>

record RuleVariable =
  Count :: bool
  VarCollection :: string
  VarKey :: string
  Exceptions :: slice

text \<open>
  \<open>Operator\<close> and \<open>Action\<close> are Go interfaces (lines 40-49) whose implementations are
  outside this file. A value of either is a reference; what its methods do is given by the
  environment record \<open>Env\<close> below.
\<close>

datatype Operator = OperatorRef nat

datatype Action = ActionRef nat

text \<open>\<open>RuleOp\<close> (lines 51-56); its field \<open>Operator\<close> is named \<open>OpOperator\<close>.\<close>

record RuleOp =
  OpOperator :: Operator
  Data :: string
  Negation :: bool

text \<open>
  \<open>Rule\<close> (lines 70-117). The field \<open>Id\<close> is named \<open>RuleId\<close>. The pointer \<open>Chain *Rule\<close> is
  an optional rule: a chain is a finite singly linked list (the rule compiler rejects
  cycles). \<open>OperatorObj\<close> is never nil at run time (every compiled rule has one operator).
\<close>

record RuleFields =
  Vars :: string
  Variables :: "RuleVariable list"
  Operator :: string
  OperatorObj :: RuleOp
  Disruptive :: bool
  Transformations :: "RuleTransformation list"
  HasChain :: bool
  ParentId :: int
  Actions :: "Action list"
  ActionParams :: string
  MultiMatch :: bool
  Severity :: string
  Skip :: bool
  SecMark :: string
  Log :: bool
  Raw :: string
  DisruptiveAction :: int
  DefaultDisruptiveAction :: string
  RuleId :: int
  Tags :: "string list"
  Phase :: int
  Msg :: string
  Rev :: string
  Maturity :: string
  Version :: string
  Status :: int

datatype Rule = Rule (attrs: RuleFields) (Chain: "Rule option")

text \<open>An entry of \<open>tx.GetRemovedTargets\<close>: a collection name and a key (read at lines
  140-141 as \<open>c.Name\<close> and \<open>c.Key\<close>).\<close>

record RemovedTarget =
  Name :: string
  TargetKey :: string

text \<open>
  The transaction and the implementations of operators and actions are not part of
  rule.go. The transaction is a type parameter \<open>'tx\<close>, and every method \<open>Evaluate\<close> calls
  on it, on an operator or on an action is a field of the environment:
  \<^item> \<open>OperatorEvaluate\<close> is \<open>Operator.Evaluate(tx, data)\<close>; it returns the verdict and the
    transaction, which an operator may change (captures);
  \<^item> \<open>ActionGetType\<close> and \<open>ActionEvaluate\<close> are \<open>Action.GetType()\<close> and
    \<open>Action.Evaluate(rule, tx)\<close>; an action reads the rule and changes the transaction;
  \<^item> \<open>RuleRemoveById\<close> is the field \<open>tx.RuleRemoveById\<close>; the others are the methods of
    the same names of the transaction.
\<close>

record 'tx Env =
  OperatorEvaluate :: "Operator \<Rightarrow> 'tx \<Rightarrow> string \<Rightarrow> bool \<times> 'tx"
  ActionGetType :: "Action \<Rightarrow> int"
  ActionEvaluate :: "Action \<Rightarrow> Rule \<Rightarrow> 'tx \<Rightarrow> 'tx"
  RuleRemoveById :: "'tx \<Rightarrow> int list"
  GetRemovedTargets :: "'tx \<Rightarrow> int \<Rightarrow> RemovedTarget list"
  GetField :: "'tx \<Rightarrow> string \<Rightarrow> string \<Rightarrow> string list \<Rightarrow> MatchData list"
  MatchVars :: "'tx \<Rightarrow> MatchData list \<Rightarrow> 'tx"
  SetCapturable :: "'tx \<Rightarrow> bool \<Rightarrow> 'tx"
  MacroExpansion :: "'tx \<Rightarrow> string \<Rightarrow> string"
  MatchRule :: "'tx \<Rightarrow> Rule \<Rightarrow> string list \<Rightarrow> MatchData list \<Rightarrow> 'tx"

text \<open>The state \<open>Evaluate\<close> runs on: the transaction and the store of backing arrays.\<close>

record 'tx state =
  tx :: 'tx
  mem :: heap

text \<open>
  What a run of \<open>Evaluate\<close> does at its interfaces is recorded as a list of events, in the
  order of the calls:
  \<^item> \<open>OperatorResult r a b\<close>: \<open>r.executeOperator(a, tx)\<close> returned \<open>b\<close>;
  \<^item> \<open>ActionInvoked r i\<close>: \<open>Evaluate\<close> of rule \<open>r\<close> called \<open>a.Evaluate(r, tx)\<close> for the
    action \<open>a\<close> at position \<open>i\<close> of \<open>r.Actions\<close>;
  \<^item> \<open>MatchRuleCalled r msgs m\<close>: \<open>tx.MatchRule(r, msgs, m)\<close> was called;
  \<^item> \<open>ChainLinkReturned r nr m\<close>: in the chain loop of rule \<open>r\<close>, \<open>nr.Evaluate(tx)\<close>
    returned \<open>m\<close>.
  The events are returned next to the result and the state; they influence neither.
\<close>

datatype event =
  OperatorResult Rule string bool
| ActionInvoked Rule nat
| MatchRuleCalled Rule "string list" "MatchData list"
| ChainLinkReturned Rule Rule "MatchData list"

text \<open>The action kinds (lines 24-29).\<close>

definition ACTION_TYPE_METADATA :: int where "ACTION_TYPE_METADATA = 1"
definition ACTION_TYPE_DISRUPTIVE :: int where "ACTION_TYPE_DISRUPTIVE = 2"
definition ACTION_TYPE_DATA :: int where "ACTION_TYPE_DATA = 3"
definition ACTION_TYPE_NONDISRUPTIVE :: int where "ACTION_TYPE_NONDISRUPTIVE = 4"
definition ACTION_TYPE_FLOW :: int where "ACTION_TYPE_FLOW = 5"

subsection \<open>strconv.Itoa\<close>

text \<open>The decimal numeral of an integer, as \<open>strconv.Itoa\<close> of the Go library prints it.\<close>

fun nat_decimal :: "nat \<Rightarrow> string" where
  "nat_decimal n =
     (if n < 10 then [char_of (48 + n)]
      else nat_decimal (n div 10) @ [char_of (48 + n mod 10)])"

declare nat_decimal.simps [simp del]

definition Itoa :: "int \<Rightarrow> string" where
  "Itoa i = (if i < 0 then CHR ''-'' # nat_decimal (nat (- i)) else nat_decimal (nat i))"

text \<open>Reading a string of decimal digits back (used to state what \<open>Itoa\<close> prints).\<close>

definition digits_value :: "string \<Rightarrow> nat" where
  "digits_value s = foldl (\<lambda>acc c. 10 * acc + (of_char c - 48)) 0 s"

section \<open>The transformation pipeline\<close>

text \<open>
  \<open>executeTransformationsMultimatch\<close> (rule.go, lines 249-260): the loop over
  \<open>r.Transformations\<close> carries the current \<open>value\<close> and the result slice \<open>res\<close>.
\<close>

fun multimatch_loop :: "RuleTransformation list \<Rightarrow> string \<Rightarrow> string list \<Rightarrow> string list" where
  "multimatch_loop [] v res = res"
| "multimatch_loop (t # ts) v res =
     (let v' = TfFunc t v in multimatch_loop ts v' (res @ [v']))"

definition executeTransformationsMultimatch :: "RuleTransformation list \<Rightarrow> string \<Rightarrow> string list" where
  "executeTransformationsMultimatch ts v = multimatch_loop ts v [v]"

text \<open>\<open>executeTransformations\<close> (rule.go, lines 262-271).\<close>

fun executeTransformations :: "RuleTransformation list \<Rightarrow> string \<Rightarrow> string" where
  "executeTransformations [] v = v"
| "executeTransformations (t # ts) v = executeTransformations ts (TfFunc t v)"

text \<open>The arguments the operator is run on for one value (lines 170-175).\<close>

definition transformed_args :: "Rule \<Rightarrow> string \<Rightarrow> string list" where
  "transformed_args r v =
     (if MultiMatch (attrs r) then executeTransformationsMultimatch (Transformations (attrs r)) v
      else [executeTransformations (Transformations (attrs r)) v])"

section \<open>Rule.Evaluate\<close>

text \<open>The skip check (lines 127-132): the loop over \<open>tx.RuleRemoveById\<close>.\<close>

fun rule_removed :: "int list \<Rightarrow> int \<Rightarrow> bool" where
  "rule_removed [] rid = False"
| "rule_removed (nid # nids) rid = (if nid = rid then True else rule_removed nids rid)"

text \<open>Lines 138-144: every removed target of the variable's collection is appended to
  the local slice \<open>exceptions\<close>.\<close>

fun append_removed_targets ::
  "RemovedTarget list \<Rightarrow> string \<Rightarrow> slice \<Rightarrow> heap \<Rightarrow> slice \<times> heap" where
  "append_removed_targets [] col exceptions h = (exceptions, h)"
| "append_removed_targets (c # cs) col exceptions h =
     (if Name c = col then
        (case go_append exceptions (TargetKey c) h of
           (exceptions', h') \<Rightarrow> append_removed_targets cs col exceptions' h')
      else append_removed_targets cs col exceptions h)"

text \<open>Lines 136-144: \<open>exceptions\<close> is made with the length of \<open>v.Exceptions\<close>, filled by
  \<open>copy\<close>, then extended.\<close>

definition build_exceptions :: "RuleVariable \<Rightarrow> RemovedTarget list \<Rightarrow> heap \<Rightarrow> slice \<times> heap" where
  "build_exceptions v ecol h =
     (case go_make (Len (Exceptions v)) h of
        (exceptions, h1) \<Rightarrow>
          append_removed_targets ecol (VarCollection v) exceptions
            (go_copy exceptions (Exceptions v) h1))"

text \<open>Lines 148-160: the count of a variable with \<open>Count\<close> set.\<close>

definition count_values :: "RuleVariable \<Rightarrow> MatchData list \<Rightarrow> MatchData list" where
  "count_values v vals =
     (if Count v then
        (if VarKey v \<noteq> [] \<and> length vals = 1 then
           [(hd vals)\<lparr>Value := Itoa (int (length (Value (hd vals))))\<rparr>]
         else
           [\<lparr>Collection = VarCollection v, Key = VarKey v, Value = Itoa (int (length vals))\<rparr>])
      else vals)"

text \<open>\<open>executeOperator\<close> (lines 238-247).\<close>

definition executeOperator :: "'tx Env \<Rightarrow> Rule \<Rightarrow> string \<Rightarrow> 'tx \<Rightarrow> bool \<times> 'tx" where
  "executeOperator env r data t =
     (case OperatorEvaluate env (OpOperator (OperatorObj (attrs r))) t data of
        (result, t') \<Rightarrow>
          if Negation (OperatorObj (attrs r)) \<and> result then (False, t')
          else if Negation (OperatorObj (attrs r)) \<and> \<not> result then (True, t')
          else (result, t'))"

text \<open>Lines 177-185: the loop over the transformed arguments \<open>args\<close> of one value
  \<open>arg\<close>.\<close>

fun match_args ::
  "'tx Env \<Rightarrow> Rule \<Rightarrow> MatchData \<Rightarrow> string list \<Rightarrow> MatchData list \<Rightarrow> 'tx state
     \<Rightarrow> MatchData list \<times> 'tx state \<times> event list" where
  "match_args env r arg [] matchedValues st = (matchedValues, st, [])"
| "match_args env r arg (carg # cargs) matchedValues st =
     (case executeOperator env r carg (tx st) of
        (b, t') \<Rightarrow>
          (case match_args env r arg cargs
                  (if b then matchedValues @ [\<lparr>Collection = Collection arg, Key = Key arg, Value = carg\<rparr>]
                   else matchedValues)
                  (st\<lparr>tx := t'\<rparr>) of
             (mv, st', evs) \<Rightarrow> (mv, st', OperatorResult r carg b # evs)))"

text \<open>Lines 169-186: the loop over the values of one variable.\<close>

fun match_values ::
  "'tx Env \<Rightarrow> Rule \<Rightarrow> MatchData list \<Rightarrow> MatchData list \<Rightarrow> 'tx state
     \<Rightarrow> MatchData list \<times> 'tx state \<times> event list" where
  "match_values env r [] matchedValues st = (matchedValues, st, [])"
| "match_values env r (arg # vals) matchedValues st =
     (case match_args env r arg (transformed_args r (Value arg)) matchedValues st of
        (mv1, st1, e1) \<Rightarrow>
          (case match_values env r vals mv1 st1 of
             (mv2, st2, e2) \<Rightarrow> (mv2, st2, e1 @ e2)))"

text \<open>Lines 134-187: the loop over \<open>r.Variables\<close>; \<open>ecol\<close> is the result of
  \<open>tx.GetRemovedTargets(r.Id)\<close>, read once before the loop (line 133).\<close>

fun match_variables ::
  "'tx Env \<Rightarrow> Rule \<Rightarrow> RemovedTarget list \<Rightarrow> RuleVariable list \<Rightarrow> MatchData list \<Rightarrow> 'tx state
     \<Rightarrow> MatchData list \<times> 'tx state \<times> event list" where
  "match_variables env r ecol [] matchedValues st = (matchedValues, st, [])"
| "match_variables env r ecol (v # vs) matchedValues st =
     (case build_exceptions v ecol (mem st) of
        (exceptions, h1) \<Rightarrow>
          (let st1 = st\<lparr>mem := h1\<rparr>;
               vals = count_values v
                        (GetField env (tx st1) (VarCollection v) (VarKey v) (slice_elems h1 exceptions))
           in if vals = [] then
                (case executeOperator env r [] (tx st1) of
                   (b, t') \<Rightarrow>
                     (case match_variables env r ecol vs
                             (if b then matchedValues @ [\<lparr>Collection = [], Key = [], Value = []\<rparr>]
                              else matchedValues)
                             (st1\<lparr>tx := t'\<rparr>) of
                        (mv, st', evs) \<Rightarrow> (mv, st', OperatorResult r [] b # evs)))
              else
                (case match_values env r vals matchedValues st1 of
                   (mv1, st2, e1) \<Rightarrow>
                     (case match_variables env r ecol vs mv1 st2 of
                        (mv2, st3, e2) \<Rightarrow> (mv2, st3, e1 @ e2)))))"

text \<open>Lines 197-201: the loop that runs the non-disruptive actions; \<open>i\<close> is the position
  of the head of the remaining list in \<open>r.Actions\<close>.\<close>

fun run_nondisruptive ::
  "'tx Env \<Rightarrow> Rule \<Rightarrow> nat \<Rightarrow> Action list \<Rightarrow> 'tx \<Rightarrow> 'tx \<times> event list" where
  "run_nondisruptive env r i [] t = (t, [])"
| "run_nondisruptive env r i (a # as) t =
     (if ActionGetType env a = ACTION_TYPE_NONDISRUPTIVE then
        (case run_nondisruptive env r (Suc i) as (ActionEvaluate env a r t) of
           (t', evs) \<Rightarrow> (t', ActionInvoked r i # evs))
      else run_nondisruptive env r (Suc i) as t)"

text \<open>Lines 229-233: the loop that runs the disruptive and flow actions.\<close>

fun run_disruptive_flow ::
  "'tx Env \<Rightarrow> Rule \<Rightarrow> nat \<Rightarrow> Action list \<Rightarrow> 'tx \<Rightarrow> 'tx \<times> event list" where
  "run_disruptive_flow env r i [] t = (t, [])"
| "run_disruptive_flow env r i (a # as) t =
     (if ActionGetType env a = ACTION_TYPE_DISRUPTIVE \<or> ActionGetType env a = ACTION_TYPE_FLOW then
        (case run_disruptive_flow env r (Suc i) as (ActionEvaluate env a r t) of
           (t', evs) \<Rightarrow> (t', ActionInvoked r i # evs))
      else run_disruptive_flow env r (Suc i) as t)"

text \<open>
  \<open>Evaluate\<close> (lines 125-236) and its chain loop (lines 207-222). \<open>evaluate_chain env r nr
  msgs matchedValues st\<close> is the loop \<open>for nr != nil\<close> of rule \<open>r\<close> at link \<open>nr\<close>; it
  returns \<open>None\<close> where the source fails the chain (line 213) and the messages and matches
  accumulated otherwise. Each link is evaluated with \<open>Evaluate\<close>, which runs the link's own
  chain loop in turn, and the loop then moves on to \<open>nr.Chain\<close>.
\<close>

function (sequential)
  Evaluate :: "'tx Env \<Rightarrow> Rule \<Rightarrow> 'tx state \<Rightarrow> MatchData list \<times> 'tx state \<times> event list"
and
  evaluate_chain ::
    "'tx Env \<Rightarrow> Rule \<Rightarrow> Rule option \<Rightarrow> string list \<Rightarrow> MatchData list \<Rightarrow> 'tx state
       \<Rightarrow> (string list \<times> MatchData list) option \<times> 'tx state \<times> event list"
where
  "Evaluate env (Rule f c) st =
     (if rule_removed (RuleRemoveById env (tx st)) (RuleId f) then ([], st, [])
      else
        (case match_variables env (Rule f c) (GetRemovedTargets env (tx st) (RuleId f))
                (Variables f) [] st of
           (matchedValues, st1, e1) \<Rightarrow>
             if matchedValues = [] then ([], st1, e1)
             else
               (case run_nondisruptive env (Rule f c) 0 (Actions f)
                       (MatchVars env (tx st1) matchedValues) of
                  (t2, e2) \<Rightarrow>
                    (let t3 = SetCapturable env t2 False;
                         msgs = [MacroExpansion env t3 (Msg f)]
                     in case evaluate_chain env (Rule f c) c msgs matchedValues (st1\<lparr>tx := t3\<rparr>) of
                          (None, st4, e3) \<Rightarrow> ([], st4, e1 @ e2 @ e3)
                        | (Some (msgs', mv), st4, e3) \<Rightarrow>
                            if ParentId f = 0 then
                              (let t5 = (if Log f then MatchRule env (tx st4) (Rule f c) msgs' mv
                                         else tx st4);
                                   e4 = (if Log f then [MatchRuleCalled (Rule f c) msgs' mv] else [])
                               in case run_disruptive_flow env (Rule f c) 0 (Actions f) t5 of
                                    (t6, e5) \<Rightarrow> (mv, st4\<lparr>tx := t6\<rparr>, e1 @ e2 @ e3 @ e4 @ e5))
                            else (mv, st4, e1 @ e2 @ e3)))))"
| "evaluate_chain env r None msgs matchedValues st = (Some (msgs, matchedValues), st, [])"
| "evaluate_chain env r (Some (Rule g d)) msgs matchedValues st =
     (case Evaluate env (Rule g d) st of
        (m, st1, e1) \<Rightarrow>
          if m = [] then (None, st1, e1 @ [ChainLinkReturned r (Rule g d) []])
          else
            (case evaluate_chain env r d
                    (msgs @ [MacroExpansion env (tx st1) (Msg g)]) (matchedValues @ m) st1 of
               (res, st2, e2) \<Rightarrow> (res, st2, e1 @ ChainLinkReturned r (Rule g d) m # e2)))"
  by pat_completeness auto
termination
  by (relation "measure (\<lambda>x. case x of
          Inl (env, r, st) \<Rightarrow> 2 * size r + 1
        | Inr (env, r, c, msgs, mv, st) \<Rightarrow> (case c of None \<Rightarrow> 0 | Some nr \<Rightarrow> 2 * size nr + 2))")
     (auto split: option.splits Rule.splits)

text \<open>The rules of a chain, in order: the links the chain loop walks from \<open>r.Chain\<close>.\<close>

fun chain_list :: "Rule option \<Rightarrow> Rule list" where
  "chain_list None = []"
| "chain_list (Some (Rule g d)) = Rule g d # chain_list d"


text \<open>The argument of an operator call (empty for the other events).\<close>

fun event_arg :: "event \<Rightarrow> string" where
  "event_arg (OperatorResult r a b) = a"
| "event_arg (ActionInvoked r i) = []"
| "event_arg (MatchRuleCalled r msgs m) = []"
| "event_arg (ChainLinkReturned r nr m) = []"



section \<open>The Md5 transformation (pkg/transformations)\<close>

text \<open>
  \<open>Md5\<close> writes its argument to a hash of \<open>crypto/md5\<close> and returns \<open>string(h.Sum(nil))\<close>.
  The hash is the MD5 algorithm of RFC 1321 over 32-bit words: the shift amounts, the
  table of sines, the initial state, the padding with the bit length as a 64-bit
  little-endian number, sixty-four steps for each block of 64 bytes, and the digest as the
  four state words in little-endian byte order.
\<close>

definition md5_shift :: "nat list" where
  "md5_shift =
     [7, 12, 17, 22, 7, 12, 17, 22, 7, 12, 17, 22, 7, 12, 17, 22,
      5, 9, 14, 20, 5, 9, 14, 20, 5, 9, 14, 20, 5, 9, 14, 20,
      4, 11, 16, 23, 4, 11, 16, 23, 4, 11, 16, 23, 4, 11, 16, 23,
      6, 10, 15, 21, 6, 10, 15, 21, 6, 10, 15, 21, 6, 10, 15, 21]"

definition md5_table :: "32 word list" where
  "md5_table =
     [0xd76aa478, 0xe8c7b756, 0x242070db, 0xc1bdceee,
      0xf57c0faf, 0x4787c62a, 0xa8304613, 0xfd469501,
      0x698098d8, 0x8b44f7af, 0xffff5bb1, 0x895cd7be,
      0x6b901122, 0xfd987193, 0xa679438e, 0x49b40821,
      0xf61e2562, 0xc040b340, 0x265e5a51, 0xe9b6c7aa,
      0xd62f105d, 0x02441453, 0xd8a1e681, 0xe7d3fbc8,
      0x21e1cde6, 0xc33707d6, 0xf4d50d87, 0x455a14ed,
      0xa9e3e905, 0xfcefa3f8, 0x676f02d9, 0x8d2a4c8a,
      0xfffa3942, 0x8771f681, 0x6d9d6122, 0xfde5380c,
      0xa4beea44, 0x4bdecfa9, 0xf6bb4b60, 0xbebfbc70,
      0x289b7ec6, 0xeaa127fa, 0xd4ef3085, 0x04881d05,
      0xd9d4d039, 0xe6db99e5, 0x1fa27cf8, 0xc4ac5665,
      0xf4292244, 0x432aff97, 0xab9423a7, 0xfc93a039,
      0x655b59c3, 0x8f0ccc92, 0xffeff47d, 0x85845dd1,
      0x6fa87e4f, 0xfe2ce6e0, 0xa3014314, 0x4e0811a1,
      0xf7537e82, 0xbd3af235, 0x2ad7d2bb, 0xeb86d391]"

type_synonym md5_state = "32 word \<times> 32 word \<times> 32 word \<times> 32 word"

definition md5_init :: md5_state where
  "md5_init = (0x67452301, 0xefcdab89, 0x98badcfe, 0x10325476)"

definition le32 :: "string \<Rightarrow> 32 word" where
  "le32 bs = foldr (\<lambda>b w. of_char b OR push_bit 8 w) bs 0"

definition le_bytes :: "nat \<Rightarrow> 'a::len word \<Rightarrow> string" where
  "le_bytes k w = map (\<lambda>i. char_of (uint (drop_bit (8 * i) w))) [0..<k]"

definition md5_pad :: "string \<Rightarrow> string" where
  "md5_pad s =
     s @ [CHR 0x80] @ replicate ((119 - length s mod 64) mod 64) (CHR 0x00)
       @ le_bytes 8 (of_nat (length s) * 8 :: 64 word)"

fun md5_blocks :: "string \<Rightarrow> string list" where
  "md5_blocks bs = (if length bs < 64 then [] else take 64 bs # md5_blocks (drop 64 bs))"

declare md5_blocks.simps [simp del]

definition md5_words :: "string \<Rightarrow> 32 word list" where
  "md5_words blk = map (\<lambda>i. le32 (take 4 (drop (4 * i) blk))) [0..<16]"

definition md5_step :: "32 word list \<Rightarrow> nat \<Rightarrow> md5_state \<Rightarrow> md5_state" where
  "md5_step m i st =
     (case st of (a, b, c, d) \<Rightarrow>
        let (f, g) =
              (if i < 16 then ((b AND c) OR (NOT b AND d), i)
               else if i < 32 then ((d AND b) OR (NOT d AND c), (5 * i + 1) mod 16)
               else if i < 48 then (b XOR c XOR d, (3 * i + 5) mod 16)
               else (c XOR (b OR NOT d), (7 * i) mod 16));
            f' = f + a + md5_table ! i + m ! g
        in (d, b + word_rotl (md5_shift ! i) f', b, c))"

definition md5_block :: "md5_state \<Rightarrow> string \<Rightarrow> md5_state" where
  "md5_block st blk =
     (case st of (a0, b0, c0, d0) \<Rightarrow>
        case fold (md5_step (md5_words blk)) [0..<64] st of (a, b, c, d) \<Rightarrow>
          (a0 + a, b0 + b, c0 + c, d0 + d))"

definition md5_digest :: "md5_state \<Rightarrow> string" where
  "md5_digest st =
     (case st of (a, b, c, d) \<Rightarrow> concat (map (\<lambda>w. le_bytes 4 w) [a, b, c, d]))"

definition md5_Sum :: "string \<Rightarrow> string" where
  "md5_Sum s = md5_digest (foldl md5_block md5_init (md5_blocks (md5_pad s)))"

definition Md5 :: "string \<Rightarrow> string" where
  "Md5 data = md5_Sum data"

definition hex_digit :: "nat \<Rightarrow> char" where
  "hex_digit n = (if n < 10 then char_of (48 + n) else char_of (87 + n))"

definition hex_encode :: "string \<Rightarrow> string" where
  "hex_encode bs = concat (map (\<lambda>b. [hex_digit (of_char b div 16), hex_digit (of_char b mod 16)]) bs)"

section \<open>The audit logger (ConcurrentLogger.WriteAudit)\<close>

subsection \<open>Formatting times: time.Format of the Go library\<close>

text \<open>
  \<open>WriteAudit\<close> formats the time of the transaction with the layout
  \<open>02/Jan/2006:15:04:20 -0700\<close>. A layout is read from left to right (\<open>nextStdChunk\<close> of
  package \<open>time\<close>): at each position either a reference token starts there and is replaced
  by the matching field of the time, or the character is copied. \<open>std_at\<close> recognises the
  tokens that start with \<open>J\<close>, with a digit from \<open>0\<close> to \<open>5\<close> and the zone token \<open>-0700\<close>;
  the tokens that start with \<open>M\<close>, \<open>_\<close>, \<open>P\<close>, \<open>p\<close>, \<open>Z\<close>, a dot or a comma, and the other
  zone forms that start with \<open>-07\<close>, are outside this model (\<open>layout_modelled\<close> says that a
  layout has none of them).
\<close>

datatype std =
  stdLongMonth | stdMonth | stdNumMonth | stdZeroMonth
| stdDay | stdZeroDay
| stdHour | stdHour12 | stdZeroHour12
| stdMinute | stdZeroMinute
| stdSecond | stdZeroSecond
| stdLongYear | stdYear
| stdNumTZ

text \<open>A time broken down in its zone, as the methods of \<open>time.Time\<close> give it;
  \<open>ZoneOffset\<close> is in seconds east of UTC.\<close>

record civil =
  Year :: nat
  Month :: nat
  Day :: nat
  Hour :: nat
  Minute :: nat
  Second :: nat
  ZoneOffset :: int

definition starts :: "string \<Rightarrow> string \<Rightarrow> bool" where
  "starts p s \<longleftrightarrow> take (length p) s = p"

definition startsWithLowerCase :: "string \<Rightarrow> bool" where
  "startsWithLowerCase s =
     (case s of [] \<Rightarrow> False
      | c # cs \<Rightarrow> (97::nat) \<le> of_char c \<and> (of_char c :: nat) \<le> 122)"

text \<open>The token that starts at the head of a layout, with its length.\<close>

definition std_at :: "string \<Rightarrow> (std \<times> nat) option" where
  "std_at layout =
     (case layout of
        [] \<Rightarrow> None
      | c # cs \<Rightarrow>
          if c = CHR ''J'' then
            (if starts ''January'' layout then Some (stdLongMonth, 7)
             else if starts ''Jan'' layout \<and> \<not> startsWithLowerCase (drop 3 layout)
               then Some (stdMonth, 3)
             else None)
          else if c = CHR ''0'' then
            (if starts ''01'' layout then Some (stdZeroMonth, 2)
             else if starts ''02'' layout then Some (stdZeroDay, 2)
             else if starts ''03'' layout then Some (stdZeroHour12, 2)
             else if starts ''04'' layout then Some (stdZeroMinute, 2)
             else if starts ''05'' layout then Some (stdZeroSecond, 2)
             else if starts ''06'' layout then Some (stdYear, 2)
             else None)
          else if c = CHR ''1'' then
            (if starts ''15'' layout then Some (stdHour, 2) else Some (stdNumMonth, 1))
          else if c = CHR ''2'' then
            (if starts ''2006'' layout then Some (stdLongYear, 4) else Some (stdDay, 1))
          else if c = CHR ''3'' then Some (stdHour12, 1)
          else if c = CHR ''4'' then Some (stdMinute, 1)
          else if c = CHR ''5'' then Some (stdSecond, 1)
          else if c = CHR ''-'' then
            (if starts ''-0700'' layout then Some (stdNumTZ, 5) else None)
          else None)"

text \<open>\<open>appendInt\<close>: a decimal numeral, padded with zeros on the left to a width.\<close>

definition appendInt :: "int \<Rightarrow> nat \<Rightarrow> string" where
  "appendInt x width =
     (let digits = nat_decimal (nat \<bar>x\<bar>);
          padded = replicate (width - length digits) (CHR ''0'') @ digits
      in if x < 0 then CHR ''-'' # padded else padded)"

definition month_names :: "string list" where
  "month_names =
     [''January'', ''February'', ''March'', ''April'', ''May'', ''June'', ''July'',
      ''August'', ''September'', ''October'', ''November'', ''December'']"

definition Month_String :: "nat \<Rightarrow> string" where
  "Month_String m =
     (if 1 \<le> m \<and> m \<le> 12 then month_names ! (m - 1)
      else ''%!Month('' @ nat_decimal m @ '')'')"

text \<open>Go's integer division truncates towards zero.\<close>

definition go_quot :: "int \<Rightarrow> int \<Rightarrow> int" where
  "go_quot a b = (if a < 0 then - ((- a) div b) else a div b)"

definition render_std :: "civil \<Rightarrow> std \<Rightarrow> string" where
  "render_std t s =
     (case s of
        stdLongMonth \<Rightarrow> Month_String (Month t)
      | stdMonth \<Rightarrow> take 3 (Month_String (Month t))
      | stdNumMonth \<Rightarrow> appendInt (int (Month t)) 0
      | stdZeroMonth \<Rightarrow> appendInt (int (Month t)) 2
      | stdDay \<Rightarrow> appendInt (int (Day t)) 0
      | stdZeroDay \<Rightarrow> appendInt (int (Day t)) 2
      | stdHour \<Rightarrow> appendInt (int (Hour t)) 2
      | stdHour12 \<Rightarrow> appendInt (int (if Hour t mod 12 = 0 then 12 else Hour t mod 12)) 0
      | stdZeroHour12 \<Rightarrow> appendInt (int (if Hour t mod 12 = 0 then 12 else Hour t mod 12)) 2
      | stdMinute \<Rightarrow> appendInt (int (Minute t)) 0
      | stdZeroMinute \<Rightarrow> appendInt (int (Minute t)) 2
      | stdSecond \<Rightarrow> appendInt (int (Second t)) 0
      | stdZeroSecond \<Rightarrow> appendInt (int (Second t)) 2
      | stdLongYear \<Rightarrow> appendInt (int (Year t)) 4
      | stdYear \<Rightarrow> appendInt (int (Year t mod 100)) 2
      | stdNumTZ \<Rightarrow>
          (let zone = go_quot (ZoneOffset t) 60;
               sign = (if zone < 0 then CHR ''-'' else CHR ''+'');
               z = \<bar>zone\<bar>
           in sign # appendInt (z div 60) 2 @ appendInt (z mod 60) 2))"

fun time_Format :: "civil \<Rightarrow> string \<Rightarrow> string" where
  "time_Format t [] = []"
| "time_Format t (c # cs) =
     (case std_at (c # cs) of
        Some (s, n) \<Rightarrow> render_std t s @ time_Format t (drop (n - 1) cs)
      | None \<Rightarrow> c # time_Format t cs)"

text \<open>A layout within the model: no character starts a token that \<open>std_at\<close> leaves
  out, and every \<open>-07\<close> in it is the start of \<open>-0700\<close> and of no longer zone token.\<close>

fun layout_modelled :: "string \<Rightarrow> bool" where
  "layout_modelled [] = True"
| "layout_modelled (c # cs) =
     (c \<notin> set ''M_PpZ.,'' \<and>
      (starts ''-07'' (c # cs) \<longrightarrow>
         starts ''-0700'' (c # cs) \<and> \<not> starts ''-070000'' (c # cs)) \<and>
      \<not> starts ''002'' (c # cs) \<and>
      layout_modelled cs)"

text \<open>The layout of \<open>WriteAudit\<close> (line 53), and the layout that prints the seconds.\<close>

definition audit_layout :: string where
  "audit_layout = ''02/Jan/2006:15:04:20 -0700''"

definition seconds_layout :: string where
  "seconds_layout = ''02/Jan/2006:15:04:05 -0700''"

subsection \<open>Printing: fmt.Sprintf of the Go library\<close>

text \<open>
  The verb \<open>%q\<close> prints a string as a Go string literal in double quotes
  (\<open>strconv.Quote\<close>): a double quote and a backslash are escaped with a backslash, the
  control characters and the bytes from 128 on are written as escapes. Every such escape is
  modelled as a backslash, the letter x and two hexadecimal digits (Go has short forms for
  seven control characters and prints valid UTF-8 as it is); printable ASCII, which the
  examples use, is exact.
\<close>

definition quote_char :: "char \<Rightarrow> string" where
  "quote_char c =
     (if c = CHR 0x22 then [CHR 0x5C, CHR 0x22]
      else if c = CHR 0x5C then [CHR 0x5C, CHR 0x5C]
      else if (32::nat) \<le> of_char c \<and> (of_char c :: nat) < 127 then [c]
      else [CHR 0x5C, CHR ''x'', hex_digit (of_char c div 16), hex_digit (of_char c mod 16)])"

definition strconv_Quote :: "string \<Rightarrow> string" where
  "strconv_Quote s = CHR 0x22 # concat (map quote_char s) @ [CHR 0x22]"

subsection \<open>Files\<close>



text \<open>
  What the host decides in one call of \<open>WriteAudit\<close>: the local time of a timestamp
  (\<open>time.Unix(0, ns)\<close> in the zone of the host), \<open>path.Join\<close>, and the outcome of each
  system call: whether \<open>MkdirAll\<close> fails, whether opening the file fails, how many bytes the
  write accepts before it fails (\<open>None\<close>: all of them), and whether closing fails. An error
  is identified by its message.
\<close>

record host =
  local_time :: "int \<Rightarrow> civil"
  path_Join :: "string \<Rightarrow> string \<Rightarrow> string"
  mkdir_error :: "string option"
  open_error :: "string option"
  write_accepts :: "nat option"
  write_error :: string
  close_error :: "string option"


subsection \<open>WriteAudit\<close>

text \<open>
  The values \<open>WriteAudit\<close> reads from the transaction, under the names of its local
  variables (lines 52-72): \<open>Timestamp\<close> is \<open>tx.Timestamp\<close>, \<open>TxId\<close> is \<open>tx.Id\<close>, \<open>logdir\<close> and
  \<open>fname\<close> are the results of \<open>tx.GetAuditPath()\<close> and \<open>jsdata\<close> is \<open>tx.ToAuditJson()\<close>.
\<close>

record AuditView =
  Timestamp :: int
  ipsource :: string
  requestline :: string
  responsecode :: int
  responselength :: int
  requestlength :: int
  logdir :: string
  fname :: string
  TxId :: string
  jsdata :: string

text \<open>Lines 52-66: the concise line, printed with the format
  \<open>%s %s - - [%s] %q %d %d %q %q %s %q %s %d %d\<close>.\<close>

definition audit_line :: "host \<Rightarrow> AuditView \<Rightarrow> string" where
  "audit_line h v =
     (let ts = time_Format (local_time h (Timestamp v)) audit_layout;
          ipserver = ''-'';
          filepath = path_Join h (logdir v) (fname v)
      in ipsource v @ '' '' @ ipserver @ '' - - ['' @ ts @ ''] '' @ strconv_Quote (requestline v)
           @ '' '' @ Itoa (responsecode v) @ '' '' @ Itoa (responselength v)
           @ '' '' @ strconv_Quote ''-'' @ '' '' @ strconv_Quote ''-'' @ '' '' @ TxId v
           @ '' '' @ strconv_Quote ''-'' @ '' '' @ filepath @ '' '' @ Itoa 0
           @ '' '' @ Itoa (requestlength v))"



subsection \<open>An example call\<close>

text \<open>
  The transaction of the comment at line 51: 22 August 2009, 13:24:20 in the zone
  \<open>+0100\<close>, that is 1250943860 seconds after the epoch.
\<close>

definition example_time :: civil where
  "example_time = \<lparr>Year = 2009, Month = 8, Day = 22, Hour = 13, Minute = 24, Second = 20,
                    ZoneOffset = 3600\<rparr>"

definition example_view :: AuditView where
  "example_view =
     \<lparr>Timestamp = 1250943860000000000, ipsource = ''192.168.3.130'',
      requestline = ''GET / HTTP/1.1'', responsecode = 200, responselength = 56,
      requestlength = 1248, logdir = ''/20090822/20090822-1324'',
      fname = ''20090822-132420-SojdH8AAQEAAAugAQAAAAAA'', TxId = ''SojdH8AAQEAAAugAQAAAAAA'',
      jsdata = ''[2009,8,22,13,24,20]''\<rparr>"

text \<open>A host on which every system call succeeds, and one whose disk is full after five
  bytes of the write.\<close>

definition good_host :: host where
  "good_host =
     \<lparr>local_time = (\<lambda>ns. example_time), path_Join = (\<lambda>a b. a @ ''/'' @ b),
      mkdir_error = None, open_error = None, write_accepts = None,
      write_error = ''no space left on device'', close_error = None\<rparr>"



section \<open>An example environment\<close>

text \<open>
  A small transaction and environment on which the definitions above run; the examples
  after each theorem are evaluated on it. The transaction holds the removed rule ids, the
  removed targets by rule id, the entries of all collections, and a journal in which
  \<open>MatchVars\<close>, \<open>MatchRule\<close> and the actions write what they did.
\<close>

record demo_tx =
  tx_removed :: "int list"
  tx_targets :: "(int \<times> RemovedTarget) list"
  tx_entries :: "MatchData list"
  tx_journal :: "(string \<times> nat) list"

text \<open>
  Operator 0 matches everything, operator 1 matches a non-empty argument, operator 2
  matches the argument \<open>POST\<close>, operator 3 matches a decimal numeral greater than 10
  (as \<open>@gt 10\<close> does). The kind of action \<open>n\<close> is \<open>n mod 10\<close>; every action writes its number into
  the journal. \<open>GetField\<close> selects the entries of a collection (all of them for the empty
  key, else those with the key) whose key is not an exception.
\<close>

definition demo_env :: "demo_tx Env" where
  "demo_env =
     \<lparr>OperatorEvaluate = (\<lambda>op t data. case op of OperatorRef n \<Rightarrow>
          ((if n = 0 then True else if n = 1 then data \<noteq> [] else if n = 2 then data = ''POST''
            else if n = 3 then 10 < digits_value data else False), t)),
      ActionGetType = (\<lambda>a. case a of ActionRef n \<Rightarrow> int (n mod 10)),
      ActionEvaluate = (\<lambda>a r t. case a of ActionRef n \<Rightarrow> t\<lparr>tx_journal := tx_journal t @ [(''action'', n)]\<rparr>),
      RuleRemoveById = tx_removed,
      GetRemovedTargets = (\<lambda>t rid. map snd (filter (\<lambda>p. fst p = rid) (tx_targets t))),
      GetField = (\<lambda>t col key exc.
          filter (\<lambda>m. Collection m = col \<and> (key = [] \<or> Key m = key) \<and> Key m \<notin> set exc) (tx_entries t)),
      MatchVars = (\<lambda>t m. t\<lparr>tx_journal := tx_journal t @ [(''MatchVars'', length m)]\<rparr>),
      SetCapturable = (\<lambda>t b. t),
      MacroExpansion = (\<lambda>t s. s),
      MatchRule = (\<lambda>t r msgs m. t\<lparr>tx_journal := tx_journal t @ [(''MatchRule'', length m)]\<rparr>)\<rparr>"

text \<open>The fields of a rule as \<open>NewRule\<close> leaves them (phase 2, no tags), with the
  operator that matches everything.\<close>

definition blank_fields :: RuleFields where
  "blank_fields =
     \<lparr>Vars = [], Variables = [], Operator = [],
      OperatorObj = \<lparr>OpOperator = OperatorRef 0, Data = [], Negation = False\<rparr>,
      Disruptive = False, Transformations = [], HasChain = False, ParentId = 0, Actions = [],
      ActionParams = [], MultiMatch = False, Severity = [], Skip = False, SecMark = [],
      Log = False, Raw = [], DisruptiveAction = 0, DefaultDisruptiveAction = [], RuleId = 0,
      Tags = [], Phase = 2, Msg = [], Rev = [], Maturity = [], Version = [], Status = 0\<rparr>"

definition no_exceptions :: slice where
  "no_exceptions = \<lparr>Array = 0, Len = 0, Cap = 0\<rparr>"

definition demo_heap :: heap where
  "demo_heap = \<lparr>arrays = (\<lambda>a. []), next_array = 1\<rparr>"

text \<open>
  A chain of two rules. The head (id 1) looks at \<open>ARGS\<close> with operator 1, logs, and has a
  non-disruptive action (4), a disruptive one (2) and a flow one (5); its link looks at
  \<open>REQUEST_METHOD\<close> with operator 2 and has a non-disruptive action (14).
\<close>

definition child_rule :: Rule where
  "child_rule = Rule (blank_fields\<lparr>
      Variables := [\<lparr>Count = False, VarCollection = ''REQUEST_METHOD'', VarKey = [], Exceptions = no_exceptions\<rparr>],
      OperatorObj := \<lparr>OpOperator = OperatorRef 2, Data = ''POST'', Negation = False\<rparr>,
      ParentId := 1, Actions := [ActionRef 14], Msg := ''child''\<rparr>) None"

definition head_rule :: Rule where
  "head_rule = Rule (blank_fields\<lparr>
      Variables := [\<lparr>Count = False, VarCollection = ''ARGS'', VarKey = [], Exceptions = no_exceptions\<rparr>],
      OperatorObj := \<lparr>OpOperator = OperatorRef 1, Data = [], Negation = False\<rparr>,
      HasChain := True, RuleId := 1, Log := True,
      Actions := [ActionRef 4, ActionRef 2, ActionRef 5], Msg := ''head''\<rparr>) (Some child_rule)"





text \<open>
  A rule (id 7) over all of \<open>ARGS\<close> whose variable has the exception \<open>debug\<close> in a slice
  with spare capacity (array 0, length 1, capacity 2), and a transaction in which the
  target \<open>ARGS:pw\<close> has been removed for rule 7 (and \<open>ARGS:id\<close> for another rule).
\<close>

definition shared_heap :: heap where
  "shared_heap = \<lparr>arrays = (\<lambda>a. [])(0 := [''debug'', []]), next_array = 1\<rparr>"

definition target_var :: RuleVariable where
  "target_var = \<lparr>Count = False, VarCollection = ''ARGS'', VarKey = [],
                  Exceptions = \<lparr>Array = 0, Len = 1, Cap = 2\<rparr>\<rparr>"

definition target_rule :: Rule where
  "target_rule = Rule (blank_fields\<lparr>Variables := [target_var], RuleId := 7\<rparr>) None"

definition demo_tx_targets :: demo_tx where
  "demo_tx_targets = \<lparr>tx_removed = [],
     tx_targets = [(7, \<lparr>Name = ''ARGS'', TargetKey = ''pw''\<rparr>), (8, \<lparr>Name = ''ARGS'', TargetKey = ''id''\<rparr>)],
     tx_entries = [\<lparr>Collection = ''ARGS'', Key = ''pw'', Value = ''secret''\<rparr>,
                   \<lparr>Collection = ''ARGS'', Key = ''id'', Value = ''7''\<rparr>,
                   \<lparr>Collection = ''ARGS'', Key = ''debug'', Value = ''1''\<rparr>],
     tx_journal = []\<rparr>"

definition demo_state_targets :: "demo_tx state" where
  "demo_state_targets = \<lparr>tx = demo_tx_targets, mem = shared_heap\<rparr>"

text \<open>A rule that counts \<open>ARGS\<close> (the variable \<open>&ARGS\<close>) with operator 3, and a request
  with eleven arguments.\<close>

definition count_var :: RuleVariable where
  "count_var = \<lparr>Count = True, VarCollection = ''ARGS'', VarKey = [], Exceptions = no_exceptions\<rparr>"

definition count_rule :: Rule where
  "count_rule = Rule (blank_fields\<lparr>
      Variables := [count_var],
      OperatorObj := \<lparr>OpOperator = OperatorRef 3, Data = ''10'', Negation = False\<rparr>,
      RuleId := 9\<rparr>) None"

definition demo_tx_args :: demo_tx where
  "demo_tx_args = \<lparr>tx_removed = [], tx_targets = [],
     tx_entries = map (\<lambda>k. \<lparr>Collection = ''ARGS'', Key = k, Value = ''x''\<rparr>)
                    [''a'', ''b'', ''c'', ''d'', ''e'', ''f'', ''g'', ''h'', ''i'', ''j'', ''k''],
     tx_journal = []\<rparr>"

definition demo_state_args :: "demo_tx state" where
  "demo_state_args = \<lparr>tx = demo_tx_args, mem = demo_heap\<rparr>"

section \<open>Properties of the transformation pipeline\<close>

lemma executeTransformations_append:
  "executeTransformations (ts @ us) v = executeTransformations us (executeTransformations ts v)"
  by (induction ts arbitrary: v) simp_all

lemma multimatch_loop_length:
  "length (multimatch_loop ts v res) = length res + length ts"
  by (induction ts arbitrary: v res) (simp_all add: Let_def)

lemma multimatch_loop_prefix:
  "i < length res \<Longrightarrow> multimatch_loop ts v res ! i = res ! i"
  by (induction ts arbitrary: v res) (simp_all add: Let_def nth_append)

lemma multimatch_loop_nth:
  "i < length ts \<Longrightarrow>
     multimatch_loop ts v res ! (length res + i) = executeTransformations (take (Suc i) ts) v"
proof (induction ts arbitrary: v res i)
  case Nil
  then show ?case by simp
next
  case (Cons t ts)
  show ?case
  proof (cases i)
    case 0
    have "multimatch_loop ts (TfFunc t v) (res @ [TfFunc t v]) ! length res = TfFunc t v"
      using multimatch_loop_prefix [of "length res" "res @ [TfFunc t v]" ts "TfFunc t v"]
      by simp
    with 0 show ?thesis by (simp add: Let_def)
  next
    case (Suc j)
    with Cons.prems have j: "j < length ts" by simp
    have "multimatch_loop ts (TfFunc t v) (res @ [TfFunc t v]) ! (length (res @ [TfFunc t v]) + j)
            = executeTransformations (take (Suc j) ts) (TfFunc t v)"
      using Cons.IH [OF j] .
    with Suc show ?thesis by (simp add: Let_def)
  qed
qed

text \<open>
  C5. For every transformation pipeline and every input \<open>s\<close>,
  \<open>executeTransformationsMultimatch\<close> returns a list of length one plus the number of
  transformations; its first element is \<open>s\<close>; its element at position \<open>i\<close> is the result
  of applying the first \<open>i\<close> transformations, in order, to \<open>s\<close>; and its last element is
  \<open>executeTransformations s\<close>, the single argument used when \<open>MultiMatch\<close> is false.
\<close>

theorem executeTransformationsMultimatch_spec:
  "length (executeTransformationsMultimatch ts s) = 1 + length ts \<and>
   executeTransformationsMultimatch ts s ! 0 = s \<and>
   (\<forall>i\<le>length ts.
      executeTransformationsMultimatch ts s ! i = executeTransformations (take i ts) s) \<and>
   last (executeTransformationsMultimatch ts s) = executeTransformations ts s"
proof -
  let ?res = "executeTransformationsMultimatch ts s"
  have len: "length ?res = 1 + length ts"
    by (simp add: executeTransformationsMultimatch_def multimatch_loop_length)
  have first: "?res ! 0 = s"
    using multimatch_loop_prefix [of 0 "[s]" ts s]
    by (simp add: executeTransformationsMultimatch_def)
  have nth: "?res ! i = executeTransformations (take i ts) s" if "i \<le> length ts" for i
  proof (cases i)
    case 0
    with first show ?thesis by simp
  next
    case (Suc j)
    with that have "j < length ts" by simp
    then show ?thesis
      using multimatch_loop_nth [of j ts s "[s]"] Suc
      by (simp add: executeTransformationsMultimatch_def)
  qed
  have "?res \<noteq> []" using len by auto
  then have "last ?res = ?res ! length ts"
    using len by (simp add: last_conv_nth)
  also have "\<dots> = executeTransformations ts s"
    using nth [of "length ts"] by simp
  finally have lst: "last ?res = executeTransformations ts s" .
  from len first nth lst show ?thesis by blast
qed

theorem executeTransformationsMultimatch_spec_witness:
  "executeTransformationsMultimatch
     [\<lparr>Function = ''dup'', TfFunc = (\<lambda>x. x @ x)\<rparr>, \<lparr>Function = ''tail'', TfFunc = tl\<rparr>] ''ab''
     = [''ab'', ''abab'', ''bab''] \<and>
   (1::nat) \<le> length [\<lparr>Function = ''dup'', TfFunc = (\<lambda>x. x @ x)\<rparr>, \<lparr>Function = ''tail'', TfFunc = tl\<rparr>] \<and>
   executeTransformationsMultimatch
     [\<lparr>Function = ''dup'', TfFunc = (\<lambda>x. x @ x)\<rparr>, \<lparr>Function = ''tail'', TfFunc = tl\<rparr>] ''ab'' ! 1
     = executeTransformations
         (take 1 [\<lparr>Function = ''dup'', TfFunc = (\<lambda>x. x @ x)\<rparr>, \<lparr>Function = ''tail'', TfFunc = tl\<rparr>]) ''ab''"
  using executeTransformationsMultimatch_spec
    [of "[\<lparr>Function = ''dup'', TfFunc = (\<lambda>x. x @ x)\<rparr>, \<lparr>Function = ''tail'', TfFunc = tl\<rparr>]" "''ab''"]
  by (simp add: executeTransformationsMultimatch_def Let_def)

section \<open>Properties of Md5\<close>

lemma le_bytes_length: "length (le_bytes k w) = k"
  by (simp add: le_bytes_def)



text \<open>The padded message is a whole number of 64-byte blocks, so the block loop consumes
  all of it.\<close>

lemma pad_total:
  fixes m :: nat
  assumes "m < 64"
  shows "(m + (9 + (119 - m) mod 64)) mod 64 = 0"
proof (cases "m \<le> 55")
  case True
  then have "119 - m = 64 + (55 - m)" by arith
  then have "(119 - m) mod 64 = (55 - m) mod 64" by (simp only: mod_add_self1)
  also have "\<dots> = 55 - m" by (rule mod_less) arith
  finally have "m + (9 + (119 - m) mod 64) = 64" using True by arith
  then show ?thesis by (simp only: mod_self)
next
  case False
  with assms have "119 - m < 64" by arith
  then have "(119 - m) mod 64 = 119 - m" by (rule mod_less)
  then have e: "m + (9 + (119 - m) mod 64) = 128" using False assms by arith
  have "(128::nat) mod 64 = 0" by simp
  then show ?thesis by (simp only: e)
qed

lemma md5_pad_length: "length (md5_pad s) mod 64 = 0"
proof -
  have len: "length (md5_pad s) = length s + (9 + (119 - length s mod 64) mod 64)"
    by (simp add: md5_pad_def le_bytes_length)
  have "(length s + (9 + (119 - length s mod 64) mod 64)) mod 64
          = (length s mod 64 + (9 + (119 - length s mod 64) mod 64)) mod 64"
    by (rule mod_add_left_eq [symmetric])
  also have "\<dots> = 0"
    by (rule pad_total) simp
  finally show ?thesis by (simp only: len)
qed

text \<open>The model computes the digests of the test suite of RFC 1321.\<close>

lemma Md5_empty: "hex_encode (Md5 []) = ''d41d8cd98f00b204e9800998ecf8427e''"
  by code_simp

lemma Md5_abc: "hex_encode (Md5 ''abc'') = ''900150983cd24fb0d6963f7d28e17f72''"
  by code_simp


section \<open>Properties of Rule.Evaluate\<close>

subsection \<open>The variable loop\<close>

lemma rule_removed_iff: "rule_removed ids rid \<longleftrightarrow> rid \<in> set ids"
  by (induction ids) auto

lemma executeOperator_negation:
  "fst (executeOperator env r a t) =
     (fst (OperatorEvaluate env (OpOperator (OperatorObj (attrs r))) t a) \<noteq> Negation (OperatorObj (attrs r)))"
  by (auto simp: executeOperator_def split: prod.splits)







subsection \<open>Case analysis and induction for Evaluate\<close>

lemma Evaluate_cases [consumes 1, case_names removed unmatched chain_failed matched_head matched_link]:
  assumes "Evaluate env (Rule f c) st = (mv, st', evs)"
  obtains
    (removed) "rule_removed (RuleRemoveById env (tx st)) (RuleId f)"
      "mv = []" "st' = st" "evs = []"
  | (unmatched) e1 where
      "\<not> rule_removed (RuleRemoveById env (tx st)) (RuleId f)"
      "match_variables env (Rule f c) (GetRemovedTargets env (tx st) (RuleId f)) (Variables f) [] st
         = ([], st', e1)"
      "mv = []" "evs = e1"
  | (chain_failed) mv1 st1 e1 t2 e2 e3 where
      "\<not> rule_removed (RuleRemoveById env (tx st)) (RuleId f)"
      "match_variables env (Rule f c) (GetRemovedTargets env (tx st) (RuleId f)) (Variables f) [] st
         = (mv1, st1, e1)"
      "mv1 \<noteq> []"
      "run_nondisruptive env (Rule f c) 0 (Actions f) (MatchVars env (tx st1) mv1) = (t2, e2)"
      "evaluate_chain env (Rule f c) c [MacroExpansion env (SetCapturable env t2 False) (Msg f)] mv1
         (st1\<lparr>tx := SetCapturable env t2 False\<rparr>) = (None, st', e3)"
      "mv = []" "evs = e1 @ e2 @ e3"
  | (matched_head) mv1 st1 e1 t2 e2 msgs' st4 e3 t6 e5 where
      "\<not> rule_removed (RuleRemoveById env (tx st)) (RuleId f)"
      "match_variables env (Rule f c) (GetRemovedTargets env (tx st) (RuleId f)) (Variables f) [] st
         = (mv1, st1, e1)"
      "mv1 \<noteq> []"
      "run_nondisruptive env (Rule f c) 0 (Actions f) (MatchVars env (tx st1) mv1) = (t2, e2)"
      "evaluate_chain env (Rule f c) c [MacroExpansion env (SetCapturable env t2 False) (Msg f)] mv1
         (st1\<lparr>tx := SetCapturable env t2 False\<rparr>) = (Some (msgs', mv), st4, e3)"
      "ParentId f = 0"
      "run_disruptive_flow env (Rule f c) 0 (Actions f)
         (if Log f then MatchRule env (tx st4) (Rule f c) msgs' mv else tx st4) = (t6, e5)"
      "st' = st4\<lparr>tx := t6\<rparr>"
      "evs = e1 @ e2 @ e3 @ (if Log f then [MatchRuleCalled (Rule f c) msgs' mv] else []) @ e5"
  | (matched_link) mv1 st1 e1 t2 e2 msgs' e3 where
      "\<not> rule_removed (RuleRemoveById env (tx st)) (RuleId f)"
      "match_variables env (Rule f c) (GetRemovedTargets env (tx st) (RuleId f)) (Variables f) [] st
         = (mv1, st1, e1)"
      "mv1 \<noteq> []"
      "run_nondisruptive env (Rule f c) 0 (Actions f) (MatchVars env (tx st1) mv1) = (t2, e2)"
      "evaluate_chain env (Rule f c) c [MacroExpansion env (SetCapturable env t2 False) (Msg f)] mv1
         (st1\<lparr>tx := SetCapturable env t2 False\<rparr>) = (Some (msgs', mv), st', e3)"
      "ParentId f \<noteq> 0"
      "evs = e1 @ e2 @ e3"
proof (cases "rule_removed (RuleRemoveById env (tx st)) (RuleId f)")
  case True
  with assms have "mv = []" "st' = st" "evs = []" by simp_all
  with True removed show ?thesis by blast
next
  case nrem: False
  obtain mv1 st1 e1 where mvars:
    "match_variables env (Rule f c) (GetRemovedTargets env (tx st) (RuleId f)) (Variables f) [] st
       = (mv1, st1, e1)"
    by (cases "match_variables env (Rule f c) (GetRemovedTargets env (tx st) (RuleId f)) (Variables f) [] st")
  show ?thesis
  proof (cases "mv1 = []")
    case True
    with assms nrem mvars have "mv = []" "st' = st1" "evs = e1" by simp_all
    with nrem mvars True unmatched show ?thesis by blast
  next
    case ne: False
    obtain t2 e2 where nd:
      "run_nondisruptive env (Rule f c) 0 (Actions f) (MatchVars env (tx st1) mv1) = (t2, e2)"
      by (cases "run_nondisruptive env (Rule f c) 0 (Actions f) (MatchVars env (tx st1) mv1)")
    obtain res st4 e3 where ch:
      "evaluate_chain env (Rule f c) c [MacroExpansion env (SetCapturable env t2 False) (Msg f)] mv1
         (st1\<lparr>tx := SetCapturable env t2 False\<rparr>) = (res, st4, e3)"
      by (cases "evaluate_chain env (Rule f c) c [MacroExpansion env (SetCapturable env t2 False) (Msg f)] mv1
         (st1\<lparr>tx := SetCapturable env t2 False\<rparr>)")
    show ?thesis
    proof (cases res)
      case None
      with assms nrem mvars ne nd ch have "mv = []" "st' = st4" "evs = e1 @ e2 @ e3"
        by (simp_all add: Let_def)
      with nrem mvars ne nd ch None chain_failed show ?thesis by blast
    next
      case (Some p)
      obtain msgs' mv' where p: "p = (msgs', mv')" by (cases p)
      show ?thesis
      proof (cases "ParentId f = 0")
        case True
        obtain t6 e5 where df:
          "run_disruptive_flow env (Rule f c) 0 (Actions f)
             (if Log f then MatchRule env (tx st4) (Rule f c) msgs' mv' else tx st4) = (t6, e5)"
          by (cases "run_disruptive_flow env (Rule f c) 0 (Actions f)
             (if Log f then MatchRule env (tx st4) (Rule f c) msgs' mv' else tx st4)")
        from assms nrem mvars ne nd ch Some p True df have
          "mv = mv'" "st' = st4\<lparr>tx := t6\<rparr>"
          "evs = e1 @ e2 @ e3 @ (if Log f then [MatchRuleCalled (Rule f c) msgs' mv'] else []) @ e5"
          by (simp_all add: Let_def)
        with nrem mvars ne nd ch Some p True df matched_head show ?thesis by blast
      next
        case False
        from assms nrem mvars ne nd ch Some p False have
          "mv = mv'" "st' = st4" "evs = e1 @ e2 @ e3"
          by (simp_all add: Let_def)
        with nrem mvars ne nd ch Some p False matched_link show ?thesis by blast
      qed
    qed
  qed
qed

lemma evaluate_chain_cases [consumes 1, case_names link_failed link_matched]:
  assumes "evaluate_chain env r (Some (Rule g d)) msgs mv st = (res, st', evs)"
  obtains
    (link_failed) e1 where
      "Evaluate env (Rule g d) st = ([], st', e1)"
      "res = None" "evs = e1 @ [ChainLinkReturned r (Rule g d) []]"
  | (link_matched) m st1 e1 e2 where
      "Evaluate env (Rule g d) st = (m, st1, e1)" "m \<noteq> []"
      "evaluate_chain env r d (msgs @ [MacroExpansion env (tx st1) (Msg g)]) (mv @ m) st1
         = (res, st', e2)"
      "evs = e1 @ ChainLinkReturned r (Rule g d) m # e2"
proof -
  obtain m st1 e1 where ev: "Evaluate env (Rule g d) st = (m, st1, e1)"
    by (cases "Evaluate env (Rule g d) st")
  show ?thesis
  proof (cases "m = []")
    case True
    with assms ev have "res = None" "st' = st1" "evs = e1 @ [ChainLinkReturned r (Rule g d) []]"
      by simp_all
    with ev True link_failed show ?thesis by blast
  next
    case False
    obtain res2 st2 e2 where rec:
      "evaluate_chain env r d (msgs @ [MacroExpansion env (tx st1) (Msg g)]) (mv @ m) st1
         = (res2, st2, e2)"
      by (cases "evaluate_chain env r d (msgs @ [MacroExpansion env (tx st1) (Msg g)]) (mv @ m) st1")
    with assms ev False have "res = res2" "st' = st2" "evs = e1 @ ChainLinkReturned r (Rule g d) m # e2"
      by simp_all
    with ev False rec link_matched show ?thesis by blast
  qed
qed

lemma Evaluate_chain_induct [case_names Evaluate chain_end chain_link]:
  assumes ev: "\<And>env f c st.
      (\<And>mv1 st1 e1 t2 e2.
          \<not> rule_removed (RuleRemoveById env (tx st)) (RuleId f) \<Longrightarrow>
          match_variables env (Rule f c) (GetRemovedTargets env (tx st) (RuleId f)) (Variables f) [] st
            = (mv1, st1, e1) \<Longrightarrow>
          mv1 \<noteq> [] \<Longrightarrow>
          run_nondisruptive env (Rule f c) 0 (Actions f) (MatchVars env (tx st1) mv1) = (t2, e2) \<Longrightarrow>
          Q env (Rule f c) c [MacroExpansion env (SetCapturable env t2 False) (Msg f)] mv1
            (st1\<lparr>tx := SetCapturable env t2 False\<rparr>)) \<Longrightarrow>
      P env (Rule f c) st"
    and nil: "\<And>env r msgs mv st. Q env r None msgs mv st"
    and link: "\<And>env r g d msgs mv st.
      P env (Rule g d) st \<Longrightarrow>
      (\<And>m st1 e1. Evaluate env (Rule g d) st = (m, st1, e1) \<Longrightarrow> m \<noteq> [] \<Longrightarrow>
          Q env r d (msgs @ [MacroExpansion env (tx st1) (Msg g)]) (mv @ m) st1) \<Longrightarrow>
      Q env r (Some (Rule g d)) msgs mv st"
  shows "P env r st" and "Q env r c msgs mv st"
proof (induction env r st and env r c msgs mv st rule: Evaluate_evaluate_chain.induct)
  case (1 env f c st)
  show ?case
  proof (rule ev)
    fix mv1 st1 e1 t2 e2
    assume a: "\<not> rule_removed (RuleRemoveById env (tx st)) (RuleId f)"
      "match_variables env (Rule f c) (GetRemovedTargets env (tx st) (RuleId f)) (Variables f) [] st
            = (mv1, st1, e1)"
      "mv1 \<noteq> []"
      "run_nondisruptive env (Rule f c) 0 (Actions f) (MatchVars env (tx st1) mv1) = (t2, e2)"
    show "Q env (Rule f c) c [MacroExpansion env (SetCapturable env t2 False) (Msg f)] mv1
            (st1\<lparr>tx := SetCapturable env t2 False\<rparr>)"
      using "1" [of mv1 "(st1, e1)" st1 e1 t2 e2 "SetCapturable env t2 False"
                    "[MacroExpansion env (SetCapturable env t2 False) (Msg f)]"] a
      by simp
  qed
next
  case (2 env r msgs matchedValues st)
  show ?case by (rule nil)
next
  case (3 env r g d msgs matchedValues st)
  show ?case
  proof (rule link)
    show "P env (Rule g d) st" by (rule "3.IH"(1))
  next
    fix m st1 e1
    assume a: "Evaluate env (Rule g d) st = (m, st1, e1)" "m \<noteq> []"
    show "Q env r d (msgs @ [MacroExpansion env (tx st1) (Msg g)]) (matchedValues @ m) st1"
      using "3.IH"(2) [of m "(st1, e1)" st1 e1] a by simp
  qed
qed

subsection \<open>The action loops\<close>











subsection \<open>Chains\<close>







subsection \<open>Two runs of the example chain\<close>




lemma head_rule_neq_child_rule: "head_rule \<noteq> child_rule"
  by (simp add: head_rule_def child_rule_def)

















subsection \<open>Counts and decimal numerals\<close>

lemma digit_chars: "map (\<lambda>d. char_of (48 + d)) [0..<10::nat] = ''0123456789''"
  by code_simp

lemma digit_char:
  fixes d :: nat
  assumes "d < 10"
  shows "char_of (48 + d) \<in> set ''0123456789''" and "of_char (char_of (48 + d)) - 48 = d"
proof -
  from assms have "d \<in> {0..<10}" by simp
  then have "char_of (48 + d) \<in> set (map (\<lambda>d. char_of (48 + d)) [0..<10::nat])"
    by (simp only: set_map set_upt) (rule imageI)
  then show "char_of (48 + d) \<in> set ''0123456789''"
    by (simp only: digit_chars)
  from assms have "(48 + d) mod 256 = 48 + d" by simp
  then show "of_char (char_of (48 + d)) - 48 = d" by simp
qed

lemma nat_decimal_digits: "nat_decimal n \<noteq> [] \<and> set (nat_decimal n) \<subseteq> set ''0123456789''"
proof (induction n rule: nat_decimal.induct)
  case (1 n)
  show ?case
  proof (cases "n < 10")
    case True
    then show ?thesis
      using digit_char(1) [of n] by (subst nat_decimal.simps, subst (2) nat_decimal.simps) simp
  next
    case False
    have "n mod 10 < 10" by simp
    from digit_char(1) [OF this] "1.IH" [OF False] False show ?thesis
      by (subst nat_decimal.simps, subst (2) nat_decimal.simps) simp
  qed
qed

lemma digits_value_snoc: "digits_value (s @ [c]) = 10 * digits_value s + (of_char c - 48)"
  by (simp add: digits_value_def)

lemma digits_value_nat_decimal: "digits_value (nat_decimal n) = n"
proof (induction n rule: nat_decimal.induct)
  case (1 n)
  show ?case
  proof (cases "n < 10")
    case True
    then show ?thesis
      using digit_char(2) [of n] by (subst nat_decimal.simps) (simp add: digits_value_def)
  next
    case False
    have "n mod 10 < 10" by simp
    from digit_char(2) [OF this] "1.IH" [OF False] False show ?thesis
      by (subst nat_decimal.simps) (simp add: digits_value_snoc)
  qed
qed

lemma Itoa_nat: "Itoa (int n) = nat_decimal n"
  by (simp add: Itoa_def)

lemma match_args_args:
  "match_args env r arg cargs mv st = (mv', st', evs) \<Longrightarrow> map event_arg evs = cargs"
  by (induction cargs arbitrary: mv st mv' st' evs) (auto split: prod.splits)

lemma match_values_single_args:
  assumes "match_values env r [md] mv st = (mv', st', evs)"
  shows "map event_arg evs = transformed_args r (Value md)"
proof -
  obtain mv1 st1 e1 where a: "match_args env r md (transformed_args r (Value md)) mv st = (mv1, st1, e1)"
    by (cases "match_args env r md (transformed_args r (Value md)) mv st")
  with assms have "evs = e1" by simp
  with match_args_args [OF a] show ?thesis by simp
qed

text \<open>
  C4. For every variable with \<open>Count\<close> set, the resolved values are replaced by a single
  \<open>MatchData\<close> whose value is a decimal numeral: the length of the entry's value if the key
  of the variable is not empty and exactly one entry matched (the entry keeps its collection
  and key), and otherwise the number of matched entries, with the collection and the key of
  the variable (so a count over a whole collection has the empty key). The numeral is
  computed once, before the transformations: the operator is run on exactly the transformed
  arguments of the numeral (all intermediate values under \<open>MultiMatch\<close>, the final one
  otherwise).
\<close>

theorem count_single_numeral:
  assumes cnt: "Count v"
    and ex: "build_exceptions v ecol (mem st) = (exceptions, h1)"
    and vals: "vals = GetField env (tx st) (VarCollection v) (VarKey v) (slice_elems h1 exceptions)"
    and n: "n = (if VarKey v \<noteq> [] \<and> length vals = 1 then length (Value (hd vals)) else length vals)"
    and run: "match_variables env r ecol [v] mv st = (mv', st', evs)"
  shows "count_values v vals =
           [(if VarKey v \<noteq> [] \<and> length vals = 1 then hd vals
             else \<lparr>Collection = VarCollection v, Key = VarKey v, Value = []\<rparr>)\<lparr>Value := Itoa (int n)\<rparr>] \<and>
         Itoa (int n) \<noteq> [] \<and> set (Itoa (int n)) \<subseteq> set ''0123456789'' \<and>
         digits_value (Itoa (int n)) = n \<and>
         map event_arg evs = transformed_args r (Itoa (int n))"
proof -
  let ?md = "(if VarKey v \<noteq> [] \<and> length vals = 1 then hd vals
              else \<lparr>Collection = VarCollection v, Key = VarKey v, Value = []\<rparr>)\<lparr>Value := Itoa (int n)\<rparr>"
  have cv: "count_values v vals = [?md]"
    using cnt n by (simp add: count_values_def)
  have dec: "Itoa (int n) \<noteq> [] \<and> set (Itoa (int n)) \<subseteq> set ''0123456789''"
    unfolding Itoa_nat by (rule nat_decimal_digits)
  have val: "digits_value (Itoa (int n)) = n"
    unfolding Itoa_nat by (rule digits_value_nat_decimal)
  let ?st1 = "st\<lparr>mem := h1\<rparr>"
  obtain mv1 st1 e1 where a: "match_values env r [?md] mv ?st1 = (mv1, st1, e1)"
    by (cases "match_values env r [?md] mv ?st1")
  have "count_values v (GetField env (tx ?st1) (VarCollection v) (VarKey v) (slice_elems h1 exceptions))
          = [?md]"
    using cv vals by simp
  with run ex a have "evs = e1"
    by (simp add: Let_def)
  with match_values_single_args [OF a] have "map event_arg evs = transformed_args r (Itoa (int n))"
    by simp
  with cv dec val show ?thesis by blast
qed

lemma Itoa_11: "Itoa 11 = ''11''"
  by code_simp

lemma digits_value_11: "digits_value ''11'' = 11"
  by code_simp

lemma demo_count_values:
  "GetField demo_env demo_tx_args ''ARGS'' [] [] =
     map (\<lambda>k. \<lparr>Collection = ''ARGS'', Key = k, Value = ''x''\<rparr>)
       [''a'', ''b'', ''c'', ''d'', ''e'', ''f'', ''g'', ''h'', ''i'', ''j'', ''k'']"
  by (simp add: demo_env_def demo_tx_args_def)

lemma demo_run_count:
  "match_variables demo_env count_rule [] [count_var] [] demo_state_args =
     ([\<lparr>Collection = ''ARGS'', Key = [], Value = ''11''\<rparr>],
      \<lparr>tx = demo_tx_args, mem = \<lparr>arrays = (\<lambda>a. []), next_array = 2\<rparr>\<rparr>,
      [OperatorResult count_rule ''11'' True])"
  by (simp add: demo_tx_args_def count_var_def demo_state_args_def demo_heap_def no_exceptions_def
      build_exceptions_def go_make_def go_copy_def slice_elems_def count_values_def Itoa_11
      transformed_args_def count_rule_def blank_fields_def executeOperator_def demo_env_def
      digits_value_11 fun_eq_iff Let_def)

theorem count_single_numeral_witness:
  "Count count_var \<and>
   count_values count_var (GetField demo_env demo_tx_args ''ARGS'' [] []) =
     [\<lparr>Collection = ''ARGS'', Key = [], Value = ''11''\<rparr>] \<and>
   map event_arg (snd (snd (match_variables demo_env count_rule [] [count_var] [] demo_state_args))) = [''11''] \<and>
   fst (match_variables demo_env count_rule [] [count_var] [] demo_state_args) =
     [\<lparr>Collection = ''ARGS'', Key = [], Value = ''11''\<rparr>]"
proof -
  have cnt: "Count count_var" by (simp add: count_var_def)
  have ex: "build_exceptions count_var [] (mem demo_state_args) =
              (\<lparr>Array = 1, Len = 0, Cap = 0\<rparr>, \<lparr>arrays = (\<lambda>a. []), next_array = 2\<rparr>)"
    by (simp add: count_var_def demo_state_args_def demo_heap_def no_exceptions_def
        build_exceptions_def go_make_def go_copy_def fun_eq_iff)
  have vals: "GetField demo_env demo_tx_args ''ARGS'' [] [] =
                GetField demo_env (tx demo_state_args) (VarCollection count_var) (VarKey count_var)
                  (slice_elems \<lparr>arrays = (\<lambda>a. []), next_array = 2\<rparr> \<lparr>Array = 1, Len = 0, Cap = 0\<rparr>)"
    by (simp add: count_var_def demo_state_args_def slice_elems_def)
  have n: "(11::nat) = (if VarKey count_var \<noteq> [] \<and> length (GetField demo_env demo_tx_args ''ARGS'' [] []) = 1
                 then length (Value (hd (GetField demo_env demo_tx_args ''ARGS'' [] [])))
                 else length (GetField demo_env demo_tx_args ''ARGS'' [] []))"
    by (simp add: demo_count_values count_var_def)
  from count_single_numeral [OF cnt ex vals n demo_run_count]
  have c2: "count_values count_var (GetField demo_env demo_tx_args ''ARGS'' [] []) =
              [\<lparr>Collection = ''ARGS'', Key = [], Value = ''11''\<rparr>]"
    by (simp add: count_var_def Itoa_11)
  have c3: "map event_arg (snd (snd (match_variables demo_env count_rule [] [count_var] [] demo_state_args)))
              = [''11'']"
    and c4: "fst (match_variables demo_env count_rule [] [count_var] [] demo_state_args) =
              [\<lparr>Collection = ''ARGS'', Key = [], Value = ''11''\<rparr>]"
    by (simp_all only: demo_run_count fst_conv snd_conv list.map event_arg.simps)
  from cnt c2 c3 c4 show ?thesis by blast
qed

subsection \<open>The store of backing arrays\<close>

lemma frame_refl: "frame n h h"
  by (simp add: frame_def)

lemma frame_trans: "frame n h h' \<Longrightarrow> frame n h' h'' \<Longrightarrow> frame n h h''"
  by (auto simp: frame_def)

lemma frame_mono: "frame n h h' \<Longrightarrow> m \<le> n \<Longrightarrow> frame m h h'"
  by (auto simp: frame_def)

lemma frame_slice_elems:
  "frame n h h' \<Longrightarrow> Array s < n \<Longrightarrow> slice_elems h' s = slice_elems h s"
  by (simp add: frame_def slice_elems_def)

lemma go_make_frame:
  assumes "go_make k h = (s, h')"
  shows "frame (next_array h) h h'" and "Array s = next_array h" and "valid_slice h' s"
    and "Len s = k" and "next_array h' = Suc (next_array h)"
  using assms by (auto simp: go_make_def frame_def valid_slice_def)

lemma go_copy_frame:
  "Array dst \<ge> n \<Longrightarrow> frame n h (go_copy dst src h)"
  by (auto simp: go_copy_def frame_def Let_def)

lemma go_copy_next: "next_array (go_copy dst src h) = next_array h"
  by (simp add: go_copy_def Let_def)

lemma go_copy_elems:
  assumes "valid_slice h dst" and "Len dst = Len src" and "Array dst \<noteq> Array src"
    and "Len src \<le> length (arrays h (Array src))"
  shows "slice_elems (go_copy dst src h) dst = slice_elems h src"
    and "valid_slice (go_copy dst src h) dst"
  using assms by (auto simp: go_copy_def slice_elems_def valid_slice_def Let_def)

lemma go_append_frame:
  assumes "go_append s x h = (s', h')" and "n \<le> Array s" and "n \<le> next_array h"
  shows "frame n h h'" and "n \<le> Array s'"
  using assms by (auto simp: go_append_def frame_def split: if_splits)

lemma go_append_elems:
  assumes "go_append s x h = (s', h')" and "valid_slice h s"
  shows "slice_elems h' s' = slice_elems h s @ [x]" and "valid_slice h' s'"
proof -
  show "slice_elems h' s' = slice_elems h s @ [x]"
  proof (cases "Len s < Cap s")
    case True
    with assms have "Len s < length (arrays h (Array s))"
      by (simp add: valid_slice_def)
    with True assms(1) show ?thesis
      by (auto simp: go_append_def slice_elems_def take_Suc_conv_app_nth)
  next
    case False
    with assms have "length (slice_elems h s) = Len s"
      by (simp add: valid_slice_def slice_elems_def)
    with False assms(1) show ?thesis
      by (auto simp: go_append_def slice_elems_def)
  qed
  show "valid_slice h' s'"
  proof (cases "Len s < Cap s")
    case True
    with assms show ?thesis
      by (auto simp: go_append_def valid_slice_def)
  next
    case False
    with assms have len: "length (slice_elems h s) = Len s" and eq: "Len s = Cap s"
      by (simp_all add: valid_slice_def slice_elems_def)
    have "Suc (Len s) \<le> growslice_cap (Cap s)"
      using eq by (simp add: growslice_cap_def)
    with False assms(1) len show ?thesis
      by (auto simp: go_append_def valid_slice_def)
  qed
qed

lemma append_removed_targets_frame:
  "append_removed_targets cs col s h = (s', h') \<Longrightarrow> n \<le> Array s \<Longrightarrow> n \<le> next_array h \<Longrightarrow>
     frame n h h'"
proof (induction cs arbitrary: s h)
  case Nil
  then show ?case by (simp add: frame_refl)
next
  case (Cons c cs)
  show ?case
  proof (cases "Name c = col")
    case True
    obtain s1 h1 where ap: "go_append s (TargetKey c) h = (s1, h1)"
      by (cases "go_append s (TargetKey c) h")
    from go_append_frame [OF ap Cons.prems(2,3)] have f1: "frame n h h1" and a1: "n \<le> Array s1" .
    from f1 Cons.prems(3) have n1: "n \<le> next_array h1" by (simp add: frame_def)
    from Cons.prems(1) True ap have "append_removed_targets cs col s1 h1 = (s', h')" by simp
    from Cons.IH [OF this a1 n1] f1 show ?thesis by (blast intro: frame_trans)
  next
    case False
    with Cons show ?thesis by simp
  qed
qed

lemma append_removed_targets_elems:
  "append_removed_targets cs col s h = (s', h') \<Longrightarrow> valid_slice h s \<Longrightarrow>
     slice_elems h' s' = slice_elems h s @ map TargetKey (filter (\<lambda>c. Name c = col) cs)"
proof (induction cs arbitrary: s h)
  case Nil
  then show ?case by simp
next
  case (Cons c cs)
  show ?case
  proof (cases "Name c = col")
    case True
    obtain s1 h1 where ap: "go_append s (TargetKey c) h = (s1, h1)"
      by (cases "go_append s (TargetKey c) h")
    from Cons.prems(1) True ap have "append_removed_targets cs col s1 h1 = (s', h')" by simp
    from Cons.IH [OF this go_append_elems(2) [OF ap Cons.prems(2)]]
      go_append_elems(1) [OF ap Cons.prems(2)] True
    show ?thesis by simp
  next
    case False
    with Cons show ?thesis by simp
  qed
qed

lemma build_exceptions_frame:
  assumes "build_exceptions v ecol h = (e, h')"
  shows "frame (next_array h) h h'"
proof -
  obtain s0 h0 where mk: "go_make (Len (Exceptions v)) h = (s0, h0)"
    by (cases "go_make (Len (Exceptions v)) h")
  let ?h1 = "go_copy s0 (Exceptions v) h0"
  from assms mk have ap: "append_removed_targets ecol (VarCollection v) s0 ?h1 = (e, h')"
    by (simp add: build_exceptions_def)
  from go_make_frame [OF mk] have f0: "frame (next_array h) h h0"
    and a0: "Array s0 = next_array h" and n0: "next_array h0 = Suc (next_array h)" by simp_all
  from a0 have f1: "frame (next_array h) h0 ?h1" by (simp add: go_copy_frame)
  have "frame (next_array h) ?h1 h'"
    using append_removed_targets_frame [OF ap, of "next_array h"] a0 n0 by (simp add: go_copy_next)
  with f0 f1 show ?thesis by (blast intro: frame_trans)
qed

text \<open>The effective exception list: the exceptions of the variable followed by the keys
  of the removed targets of its collection.\<close>

lemma build_exceptions_elems:
  assumes "build_exceptions v ecol h = (e, h')"
    and "Array (Exceptions v) < next_array h"
    and "Len (Exceptions v) \<le> length (arrays h (Array (Exceptions v)))"
  shows "slice_elems h' e =
           slice_elems h (Exceptions v)
             @ map TargetKey (filter (\<lambda>c. Name c = VarCollection v) ecol)"
proof -
  obtain s0 h0 where mk: "go_make (Len (Exceptions v)) h = (s0, h0)"
    by (cases "go_make (Len (Exceptions v)) h")
  let ?h1 = "go_copy s0 (Exceptions v) h0"
  from assms(1) mk have ap: "append_removed_targets ecol (VarCollection v) s0 ?h1 = (e, h')"
    by (simp add: build_exceptions_def)
  from go_make_frame [OF mk] have f0: "frame (next_array h) h h0"
    and a0: "Array s0 = next_array h" and v0: "valid_slice h0 s0"
    and l0: "Len s0 = Len (Exceptions v)" by simp_all
  from a0 assms(2) have ne: "Array s0 \<noteq> Array (Exceptions v)" by simp
  from f0 assms(2) have same: "arrays h0 (Array (Exceptions v)) = arrays h (Array (Exceptions v))"
    by (simp add: frame_def)
  with assms(3) have len: "Len (Exceptions v) \<le> length (arrays h0 (Array (Exceptions v)))" by simp
  from go_copy_elems [OF v0 l0 ne len]
  have c1: "slice_elems ?h1 s0 = slice_elems h0 (Exceptions v)" and v1: "valid_slice ?h1 s0" .
  from same have "slice_elems h0 (Exceptions v) = slice_elems h (Exceptions v)"
    by (simp add: slice_elems_def)
  with append_removed_targets_elems [OF ap v1] c1 show ?thesis by simp
qed

subsection \<open>Evaluate writes to new arrays only\<close>

lemma match_args_mem: "match_args env r arg cargs mv st = (mv', st', evs) \<Longrightarrow> mem st' = mem st"
  by (induction cargs arbitrary: mv st mv' st' evs) (auto split: prod.splits)

lemma match_values_mem: "match_values env r vals mv st = (mv', st', evs) \<Longrightarrow> mem st' = mem st"
proof (induction vals arbitrary: mv st mv' st' evs)
  case Nil
  then show ?case by simp
next
  case (Cons arg vals)
  obtain mv1 st1 e1 where a: "match_args env r arg (transformed_args r (Value arg)) mv st = (mv1, st1, e1)"
    by (cases "match_args env r arg (transformed_args r (Value arg)) mv st")
  obtain mv2 st2 e2 where b: "match_values env r vals mv1 st1 = (mv2, st2, e2)"
    by (cases "match_values env r vals mv1 st1")
  from Cons.prems a b have "st' = st2" by simp
  with match_args_mem [OF a] Cons.IH [OF b] show ?case by simp
qed

lemma match_variables_frame:
  "match_variables env r ecol vs mv st = (mv', st', evs) \<Longrightarrow> n \<le> next_array (mem st) \<Longrightarrow>
     frame n (mem st) (mem st')"
proof (induction vs arbitrary: mv st mv' st' evs)
  case Nil
  then show ?case by (simp add: frame_refl)
next
  case (Cons v vs)
  obtain exceptions h1 where ex: "build_exceptions v ecol (mem st) = (exceptions, h1)"
    by (cases "build_exceptions v ecol (mem st)")
  from build_exceptions_frame [OF ex] Cons.prems(2) have f1: "frame n (mem st) h1"
    by (rule frame_mono)
  from build_exceptions_frame [OF ex] Cons.prems(2) have n1: "n \<le> next_array h1"
    by (simp add: frame_def)
  let ?st1 = "st\<lparr>mem := h1\<rparr>"
  let ?vals = "count_values v (GetField env (tx ?st1) (VarCollection v) (VarKey v) (slice_elems h1 exceptions))"
  show ?case
  proof (cases "?vals = []")
    case True
    obtain b t' where op: "executeOperator env r [] (tx ?st1) = (b, t')"
      by (cases "executeOperator env r [] (tx ?st1)")
    let ?mv1 = "if b then mv @ [\<lparr>Collection = [], Key = [], Value = []\<rparr>] else mv"
    obtain mv2 st2 e2 where rec: "match_variables env r ecol vs ?mv1 (?st1\<lparr>tx := t'\<rparr>) = (mv2, st2, e2)"
      by (cases "match_variables env r ecol vs ?mv1 (?st1\<lparr>tx := t'\<rparr>)")
    from Cons.prems(1) ex True op rec have res: "st' = st2"
      by (simp add: Let_def)
    from Cons.IH [OF rec] n1 have "frame n h1 (mem st2)" by simp
    with f1 res show ?thesis by (blast intro: frame_trans)
  next
    case False
    obtain mv1 st1 e1 where a: "match_values env r ?vals mv ?st1 = (mv1, st1, e1)"
      by (cases "match_values env r ?vals mv ?st1")
    obtain mv2 st2 e2 where b: "match_variables env r ecol vs mv1 st1 = (mv2, st2, e2)"
      by (cases "match_variables env r ecol vs mv1 st1")
    from Cons.prems(1) ex False a b have res: "st' = st2"
      by (simp add: Let_def)
    from match_values_mem [OF a] have m1: "mem st1 = h1" by simp
    from Cons.IH [OF b] n1 m1 have "frame n h1 (mem st2)" by simp
    with f1 res show ?thesis by (blast intro: frame_trans)
  qed
qed

lemma Evaluate_frame:
  "Evaluate env r st = (mv, st', evs) \<Longrightarrow> n \<le> next_array (mem st) \<Longrightarrow>
     frame n (mem st) (mem st')"
  "evaluate_chain env r c msgs mv0 st = (res, st', evs) \<Longrightarrow> n \<le> next_array (mem st) \<Longrightarrow>
     frame n (mem st) (mem st')"
proof (induction env r st and env r c msgs mv0 st arbitrary: mv st' evs and res st' evs
       rule: Evaluate_chain_induct)
  case (Evaluate env f c st)
  from Evaluate.prems(1) show ?case
  proof (cases rule: Evaluate_cases)
    case removed
    then show ?thesis by (simp add: frame_refl)
  next
    case (unmatched e1)
    from match_variables_frame [OF unmatched(2) Evaluate.prems(2)] show ?thesis .
  next
    case (chain_failed mv1 st1 e1 t2 e2 e3)
    from match_variables_frame [OF chain_failed(2) Evaluate.prems(2)]
    have f1: "frame n (mem st) (mem st1)" .
    with Evaluate.prems(2) have "n \<le> next_array (mem (st1\<lparr>tx := SetCapturable env t2 False\<rparr>))"
      by (simp add: frame_def)
    from Evaluate.IH [OF chain_failed(1,2,3,4) chain_failed(5) this] f1
    show ?thesis by (auto intro: frame_trans)
  next
    case (matched_head mv1 st1 e1 t2 e2 msgs' st4 e3 t6 e5)
    from match_variables_frame [OF matched_head(2) Evaluate.prems(2)]
    have f1: "frame n (mem st) (mem st1)" .
    with Evaluate.prems(2) have "n \<le> next_array (mem (st1\<lparr>tx := SetCapturable env t2 False\<rparr>))"
      by (simp add: frame_def)
    from Evaluate.IH [OF matched_head(1,2,3,4) matched_head(5) this] f1 matched_head(8)
    show ?thesis by (auto intro: frame_trans)
  next
    case (matched_link mv1 st1 e1 t2 e2 msgs' e3)
    from match_variables_frame [OF matched_link(2) Evaluate.prems(2)]
    have f1: "frame n (mem st) (mem st1)" .
    with Evaluate.prems(2) have "n \<le> next_array (mem (st1\<lparr>tx := SetCapturable env t2 False\<rparr>))"
      by (simp add: frame_def)
    from Evaluate.IH [OF matched_link(1,2,3,4) matched_link(5) this] f1
    show ?thesis by (auto intro: frame_trans)
  qed
next
  case (chain_end env r msgs mv st)
  then show ?case by (simp add: frame_refl)
next
  case (chain_link env r g d msgs mv st)
  from chain_link.prems(1) show ?case
  proof (cases rule: evaluate_chain_cases)
    case (link_failed e1)
    from chain_link.IH(1) [OF link_failed(1) chain_link.prems(2)] show ?thesis .
  next
    case (link_matched m st1 e1 e2)
    from chain_link.IH(1) [OF link_matched(1) chain_link.prems(2)]
    have f1: "frame n (mem st) (mem st1)" .
    with chain_link.prems(2) have "n \<le> next_array (mem st1)" by (simp add: frame_def)
    from chain_link.IH(2) [OF link_matched(1,2) link_matched(3) this] f1
    show ?thesis by (blast intro: frame_trans)
  qed
qed

text \<open>
  C7. \<open>Evaluate\<close> does not modify the rule. In the model the rule is a value that
  \<open>Evaluate\<close> reads and never returns, as the source assigns to no field of \<open>r\<close> or of a
  link; what the rule shares with the run is the backing array of each \<open>Exceptions\<close> slice.
  For every rule and state, \<open>Evaluate\<close> only allocates arrays and writes to arrays it has
  allocated: every array that existed before the call has the content it had, so the
  exception list of every variable of the rule and of each link of its chain reads the same
  after the call. The removed targets of the transaction are appended to a new copy
  (\<open>build_exceptions_elems\<close> states what the copy holds).
\<close>

theorem Evaluate_leaves_rules_unchanged:
  assumes "Evaluate env r st = (mv, st', evs)"
  shows "frame (next_array (mem st)) (mem st) (mem st') \<and>
         (\<forall>r'\<in>set (r # chain_list (Chain r)). \<forall>v\<in>set (Variables (attrs r')).
             Array (Exceptions v) < next_array (mem st) \<longrightarrow>
             slice_elems (mem st') (Exceptions v) = slice_elems (mem st) (Exceptions v))"
proof -
  have f: "frame (next_array (mem st)) (mem st) (mem st')"
    using Evaluate_frame(1) [OF assms] by simp
  then show ?thesis
    by (auto dest: frame_slice_elems)
qed

lemma demo_run_targets:
  "Evaluate demo_env target_rule demo_state_targets =
     ([\<lparr>Collection = ''ARGS'', Key = ''id'', Value = ''7''\<rparr>],
      \<lparr>tx = demo_tx_targets\<lparr>tx_journal := [(''MatchVars'', 1)]\<rparr>,
        mem = \<lparr>arrays = (\<lambda>a. [])(0 := [''debug'', []], 1 := [''debug''], 2 := [''debug'', ''pw'']),
               next_array = 3\<rparr>\<rparr>,
      [OperatorResult target_rule ''7'' True])"
  by (simp add: target_rule_def target_var_def demo_state_targets_def demo_tx_targets_def shared_heap_def
      blank_fields_def demo_env_def build_exceptions_def go_make_def go_copy_def go_append_def
      growslice_cap_def count_values_def slice_elems_def executeOperator_def transformed_args_def
      fun_eq_iff ACTION_TYPE_NONDISRUPTIVE_def ACTION_TYPE_DISRUPTIVE_def ACTION_TYPE_FLOW_def)

theorem Evaluate_leaves_rules_unchanged_witness:
  "Array (Exceptions target_var) < next_array (mem demo_state_targets) \<and>
   slice_elems (mem demo_state_targets) (Exceptions target_var) = [''debug''] \<and>
   slice_elems (mem (fst (snd (Evaluate demo_env target_rule demo_state_targets)))) (Exceptions target_var)
     = [''debug''] \<and>
   arrays (mem (fst (snd (Evaluate demo_env target_rule demo_state_targets)))) 0 = [''debug'', []] \<and>
   arrays (mem (fst (snd (Evaluate demo_env target_rule demo_state_targets)))) 2 = [''debug'', ''pw''] \<and>
   fst (Evaluate demo_env target_rule demo_state_targets) =
     [\<lparr>Collection = ''ARGS'', Key = ''id'', Value = ''7''\<rparr>]"
proof -
  have alloc: "Array (Exceptions target_var) < next_array (mem demo_state_targets)"
    by (simp add: target_var_def demo_state_targets_def shared_heap_def)
  have before: "slice_elems (mem demo_state_targets) (Exceptions target_var) = [''debug'']"
    by (simp add: target_var_def demo_state_targets_def shared_heap_def slice_elems_def)
  have mem: "target_var \<in> set (Variables (attrs target_rule))"
    and self: "target_rule \<in> set (target_rule # chain_list (Chain target_rule))"
    by (simp_all add: target_rule_def blank_fields_def)
  from Evaluate_leaves_rules_unchanged [OF demo_run_targets] mem self alloc
  have "slice_elems (mem \<lparr>tx = demo_tx_targets\<lparr>tx_journal := [(''MatchVars'', 1)]\<rparr>,
        mem = \<lparr>arrays = (\<lambda>a. [])(0 := [''debug'', []], 1 := [''debug''], 2 := [''debug'', ''pw'']),
               next_array = 3\<rparr>\<rparr>) (Exceptions target_var)
          = slice_elems (mem demo_state_targets) (Exceptions target_var)"
    by blast
  with alloc before show ?thesis
    by (simp add: demo_run_targets)
qed

section \<open>The audit logger: what one call of WriteAudit leaves behind\<close>

subsection \<open>The timestamp of the audit line\<close>

lemma audit_layout_modelled: "layout_modelled audit_layout"
  by (simp add: audit_layout_def starts_def)

lemma audit_layout_format:
  "time_Format t audit_layout =
     appendInt (int (Day t)) 2 @ ''/'' @ take 3 (Month_String (Month t)) @ ''/''
       @ appendInt (int (Year t)) 4 @ '':'' @ appendInt (int (Hour t)) 2 @ '':''
       @ appendInt (int (Minute t)) 2 @ '':'' @ appendInt (int (Day t)) 0 @ ''0 ''
       @ render_std t stdNumTZ"
  by (simp add: audit_layout_def std_at_def starts_def startsWithLowerCase_def render_std_def)

lemma seconds_layout_format:
  "time_Format t seconds_layout =
     appendInt (int (Day t)) 2 @ ''/'' @ take 3 (Month_String (Month t)) @ ''/''
       @ appendInt (int (Year t)) 4 @ '':'' @ appendInt (int (Hour t)) 2 @ '':''
       @ appendInt (int (Minute t)) 2 @ '':'' @ appendInt (int (Second t)) 2 @ '' ''
       @ render_std t stdNumTZ"
  by (simp add: seconds_layout_def std_at_def starts_def startsWithLowerCase_def render_std_def)

lemma example_fields:
  "appendInt 22 2 = ''22''" "appendInt 22 0 = ''22''" "appendInt 2009 4 = ''2009''"
  "appendInt 13 2 = ''13''" "appendInt 24 2 = ''24''" "appendInt 20 2 = ''20''"
  "take 3 (Month_String 8) = ''Aug''" "render_std example_time stdNumTZ = ''+0100''"
  by code_simp+


lemma example_time_formats:
  "time_Format example_time audit_layout = ''22/Aug/2009:13:24:220 +0100''"
  "time_Format example_time seconds_layout = ''22/Aug/2009:13:24:20 +0100''"
  by (simp_all add: audit_layout_format seconds_layout_format example_fields)
     (simp_all add: example_time_def example_fields)

text \<open>
  C9. The layout of line 53 ends its time of day with \<open>20\<close>, not with the reference
  seconds \<open>05\<close>. In a layout \<open>2\<close> is the day of the month without padding and the \<open>0\<close>
  after it is no token, so for every time the third group of the bracketed timestamp is
  the day of the month followed by the character \<open>0\<close>, and the seconds of the time do not
  occur in the audit line at all: changing them leaves the timestamp as it is. For the
  time of the comment of line 51 (22 August 2009, 13:24:20 +0100) the code prints
  \<open>22/Aug/2009:13:24:220 +0100\<close>, where the comment and the layout with \<open>05\<close> have
  \<open>22/Aug/2009:13:24:20 +0100\<close>. The last conjunct is the whole line for that example:
  client address, the server address \<open>-\<close>, two more \<open>-\<close>, the timestamp, the quoted
  request line, status, response length, two quoted \<open>-\<close>, the transaction id, a quoted
  \<open>-\<close>, the path of the JSON file, \<open>0\<close> and the request length.
\<close>

theorem audit_timestamp_has_day_for_seconds:
  "time_Format t audit_layout =
     appendInt (int (Day t)) 2 @ ''/'' @ take 3 (Month_String (Month t)) @ ''/''
       @ appendInt (int (Year t)) 4 @ '':'' @ appendInt (int (Hour t)) 2 @ '':''
       @ appendInt (int (Minute t)) 2 @ '':'' @ appendInt (int (Day t)) 0 @ ''0 ''
       @ render_std t stdNumTZ \<and>
   time_Format (t\<lparr>Second := s\<rparr>) audit_layout = time_Format t audit_layout \<and>
   Second example_time = 20 \<and>
   time_Format example_time audit_layout = ''22/Aug/2009:13:24:220 +0100'' \<and>
   time_Format example_time seconds_layout = ''22/Aug/2009:13:24:20 +0100'' \<and>
   audit_line good_host example_view =
     ''192.168.3.130 - - - [22/Aug/2009:13:24:220 +0100] '' @ [CHR 0x22] @ ''GET / HTTP/1.1''
       @ [CHR 0x22] @ '' 200 56 '' @ [CHR 0x22] @ ''-'' @ [CHR 0x22] @ '' '' @ [CHR 0x22] @ ''-''
       @ [CHR 0x22] @ '' SojdH8AAQEAAAugAQAAAAAA '' @ [CHR 0x22] @ ''-'' @ [CHR 0x22]
       @ '' /20090822/20090822-1324/20090822-132420-SojdH8AAQEAAAugAQAAAAAA 0 1248''"
proof -
  have indep: "time_Format (t\<lparr>Second := s\<rparr>) audit_layout = time_Format t audit_layout"
    by (simp add: audit_layout_format render_std_def)
  have numerals: "Itoa 200 = ''200''" "Itoa 56 = ''56''" "Itoa 0 = ''0''" "Itoa 1248 = ''1248''"
    by code_simp+
  have quotes: "strconv_Quote ''GET / HTTP/1.1'' = [CHR 0x22] @ ''GET / HTTP/1.1'' @ [CHR 0x22]"
    "strconv_Quote ''-'' = [CHR 0x22] @ ''-'' @ [CHR 0x22]"
    by code_simp+
  have line: "audit_line good_host example_view =
     ''192.168.3.130 - - - [22/Aug/2009:13:24:220 +0100] '' @ [CHR 0x22] @ ''GET / HTTP/1.1''
       @ [CHR 0x22] @ '' 200 56 '' @ [CHR 0x22] @ ''-'' @ [CHR 0x22] @ '' '' @ [CHR 0x22] @ ''-''
       @ [CHR 0x22] @ '' SojdH8AAQEAAAugAQAAAAAA '' @ [CHR 0x22] @ ''-'' @ [CHR 0x22]
       @ '' /20090822/20090822-1324/20090822-132420-SojdH8AAQEAAAugAQAAAAAA 0 1248''"
    by (simp add: audit_line_def good_host_def example_view_def example_time_formats numerals quotes)
  have sec: "Second example_time = 20" by (simp add: example_time_def)
  from audit_layout_format indep sec example_time_formats line show ?thesis by blast
qed

subsection \<open>The JSON file and the audit line\<close>










end
